theory Spec2Isabelle
  imports Complex_Main "HOL-Library.Word"
begin

unbundle bit_operations_syntax

section \<open>Conventions of the embedding\<close>

text \<open>
  The theory embeds \<^verbatim>\<open>src/model.cpp\<close> (namespace \<^verbatim>\<open>lp\<close>), function by function.

  \<^item> \<^verbatim>\<open>unsigned\<close> and \<^verbatim>\<open>size_t\<close> quantities are natural numbers. A flat index that the
    source computes in 32-bit \<^verbatim>\<open>unsigned\<close> arithmetic carries its reduction modulo
    \<open>2 ^ 32\<close> (\<open>u32\<close>). A counted loop \<^verbatim>\<open>for (auto i = 0u; i < n; ++i)\<close> is a fold over
    \<open>[0..<n]\<close>; that is what the loop does for every bound below \<open>2 ^ 32\<close>, and the theorems
    about the forward pass assume such bounds. The two \<^verbatim>\<open>unsigned\<close> loops that advance
    by another step are recursive functions whose counter wraps.
  \<^item> \<^verbatim>\<open>std::vector::reserve\<close> fails as the library says (\<^verbatim>\<open>std::length_error\<close> beyond
    \<^verbatim>\<open>max_size()\<close>, \<^verbatim>\<open>std::bad_alloc\<close> when the allocator refuses); what the machine grants is
    part of the environment. The other allocations (an \<^verbatim>\<open>Activation\<close>, an entry of a small
    vector, a string) are taken to succeed.
  \<^item> An \<^verbatim>\<open>Activation\<close> is the list of its \<^verbatim>\<open>float\<close>s (\<^verbatim>\<open>size\<close> is the length). A store
    \<^verbatim>\<open>a.data[i] = v\<close> is \<open>a[i := v]\<close>, a load is \<open>a ! i\<close>; the source performs no bounds
    check, so a theorem that needs an access to be in range says so.
  \<^item> \<^verbatim>\<open>float\<close> is a type parameter \<open>'f\<close>. Its operations are the fields of an
    environment record which every operator takes as first argument, so a theorem stated
    for every environment holds for the arithmetic of the machine, whatever its rounding.
    The environment also fixes the indeterminate content of fresh storage
    (\<^verbatim>\<open>new float[n]\<close>, reserved bytes of a vector).
  \<^item> A thrown exception, a division by zero on integers, a read outside a buffer that a
    claim is about, and a loop that does not return are the \<open>Inl\<close> results of the sum type
    \<open>error + 'a\<close>.
\<close>

record 'f env =
  fofnat :: "nat \<Rightarrow> 'f"   \<comment> \<open>conversion of an integer or unsigned value to \<^verbatim>\<open>float\<close>\<close>
  fadd :: "'f \<Rightarrow> 'f \<Rightarrow> 'f"
  fsub :: "'f \<Rightarrow> 'f \<Rightarrow> 'f"
  fmul :: "'f \<Rightarrow> 'f \<Rightarrow> 'f"
  fdiv :: "'f \<Rightarrow> 'f \<Rightarrow> 'f"
  fneg :: "'f \<Rightarrow> 'f"
  fless :: "'f \<Rightarrow> 'f \<Rightarrow> bool"
  fexp :: "'f \<Rightarrow> 'f"
  fsqrt :: "'f \<Rightarrow> 'f"
  fcos :: "'f \<Rightarrow> 'f"
  fsin :: "'f \<Rightarrow> 'f"
  fpow :: "'f \<Rightarrow> 'f \<Rightarrow> 'f"
  fpi :: "'f"   \<comment> \<open>\<^verbatim>\<open>static_cast<float>(M_PI)\<close>\<close>
  of_bits :: "32 word \<Rightarrow> 'f"   \<comment> \<open>the \<^verbatim>\<open>float\<close> whose object representation is the word\<close>
  indet :: "'f"   \<comment> \<open>content of a freshly allocated \<^verbatim>\<open>float\<close>\<close>
  indet_byte :: "8 word"   \<comment> \<open>content of a reserved, unwritten byte\<close>
  indet_ptr :: nat   \<comment> \<open>a \<^verbatim>\<open>Parameter\<close> of a default-constructed \<^verbatim>\<open>Model\<close>\<close>
  max_size :: nat   \<comment> \<open>\<^verbatim>\<open>std::vector<char>::max_size()\<close>\<close>
  allocates :: "nat \<Rightarrow> bool"   \<comment> \<open>whether the allocator grants a block of that many bytes\<close>

definition u32 :: "nat \<Rightarrow> nat" where
  "u32 n = n mod 2 ^ 32"

datatype error =
  InvalidArgument string   \<comment> \<open>\<^verbatim>\<open>std::invalid_argument\<close>\<close>
  | JsonTypeError   \<comment> \<open>\<^verbatim>\<open>nlohmann::json::type_error\<close>: a value is not of the type asked for\<close>
  | LengthError   \<comment> \<open>\<^verbatim>\<open>std::length_error\<close>\<close>
  | BadAlloc   \<comment> \<open>\<^verbatim>\<open>std::bad_alloc\<close>\<close>
  | DivisionByZero   \<comment> \<open>integer division by zero\<close>
  | OutOfBounds   \<comment> \<open>a read outside the buffer\<close>
  | NonTermination   \<comment> \<open>a loop that does not return\<close>

definition bind_err :: "error + 'a \<Rightarrow> ('a \<Rightarrow> error + 'b) \<Rightarrow> error + 'b" where
  "bind_err r f = (case r of Inl e \<Rightarrow> Inl e | Inr a \<Rightarrow> f a)"

text \<open>
  A loop whose exit is not certain is a partial function with values in \<open>option\<close>, \<open>None\<close>
  when it does not return; then its caller does not return either.
\<close>

definition returned :: "'a option \<Rightarrow> error + 'a" where
  "returned r = (case r of None \<Rightarrow> Inl NonTermination | Some a \<Rightarrow> Inr a)"

section \<open>Basics\<close>

type_synonym bf16 = "16 word"

text \<open>
  The union of \<^verbatim>\<open>bf16_to_float\<close> overlays \<^verbatim>\<open>float f\<close> with \<^verbatim>\<open>int16_t i[2]\<close>. On the
  little-endian machines the program is written for, \<^verbatim>\<open>i[0]\<close> is the low half and
  \<^verbatim>\<open>i[1]\<close> the high half of the 32 bits of \<^verbatim>\<open>f\<close>.
\<close>

definition union_bits :: "16 word \<Rightarrow> 16 word \<Rightarrow> 32 word" where
  "union_bits i0 i1 = push_bit 16 (ucast i1) OR ucast i0"

definition bf16_to_float_bits :: "bf16 \<Rightarrow> 32 word" where
  "bf16_to_float_bits v = union_bits 0 v"

definition bf16_to_float :: "'f env \<Rightarrow> bf16 \<Rightarrow> 'f" where
  "bf16_to_float E v = of_bits E (bf16_to_float_bits v)"

record Layer =
  attnNorm :: nat
  attnQ :: nat
  attnK :: nat
  attnV :: nat
  attnO :: nat
  mlpNorm :: nat
  mlpUp :: nat
  mlpGate :: nat
  mlpDown :: nat

text \<open>
  A \<^verbatim>\<open>Parameter\<close> is a pointer into the bytes of \<^verbatim>\<open>_parameterData\<close>; it is modelled by
  its byte offset from \<^verbatim>\<open>_parameterData.data()\<close>. A \<^verbatim>\<open>std::vector<char>\<close> is its
  \<^verbatim>\<open>size()\<close> together with the bytes of its allocation (\<^verbatim>\<open>capacity()\<close> is their number).
\<close>

record bytevec =
  vsize :: nat
  storage :: "8 word list"

record 'f Model =
  nLayers :: nat
  dVocab :: nat
  dModel :: nat
  dFFN :: nat
  dAttnHead :: nat
  dAttnKV :: nat
  dAttnQ :: nat
  ropeFreq :: "'f list"
  normEps :: 'f
  embedTokens :: nat
  layers :: "Layer list"
  finalNorm :: nat
  parameterData :: bytevec

definition Activation :: "'f env \<Rightarrow> nat \<Rightarrow> 'f list" where
  "Activation E n = replicate n (indet E)"

text \<open>
  \<^verbatim>\<open>Parameter::get_bf16\<close> followed by \<^verbatim>\<open>weight[j]\<close>: the 16-bit value at bytes
  \<open>p + 2 * j\<close> and \<open>p + 2 * j + 1\<close> of the parameter bytes, low byte first.
\<close>

definition byte_at :: "'f env \<Rightarrow> 8 word list \<Rightarrow> nat \<Rightarrow> 8 word" where
  "byte_at E bytes i = (if i < length bytes then bytes ! i else indet_byte E)"

definition get_bf16 :: "'f env \<Rightarrow> 'f Model \<Rightarrow> nat \<Rightarrow> nat \<Rightarrow> bf16" where
  "get_bf16 E m p j =
     push_bit 8 (ucast (byte_at E (storage (parameterData m)) (p + 2 * j + 1)))
       OR ucast (byte_at E (storage (parameterData m)) (p + 2 * j))"

section \<open>Loading\<close>

text \<open>
  The configuration document, as the accessors of \<^verbatim>\<open>loadConfig\<close> read it: each field
  holds what \<^verbatim>\<open>get<unsigned>\<close> or \<^verbatim>\<open>get<float>\<close> returns for it. (Parsing the text, and
  the exception of a missing or ill-typed field, come before everything modelled here.)
\<close>

record 'f config =
  num_hidden_layers :: nat
  vocab_size :: nat
  hidden_size :: nat
  intermediate_size :: nat
  head_dim :: nat
  num_key_value_heads :: nat
  num_attention_heads :: nat
  rms_norm_eps :: 'f
  rope_theta :: 'f
  rope_factor :: 'f
  low_freq_factor :: 'f
  high_freq_factor :: 'f
  original_max_position_embeddings :: nat

definition clamp :: "'f env \<Rightarrow> 'f \<Rightarrow> 'f \<Rightarrow> 'f \<Rightarrow> 'f" where
  \<comment> \<open>\<^verbatim>\<open>std::clamp(v, lo, hi)\<close>\<close>
  "clamp E v lo hi = (if fless E v lo then lo else if fless E hi v then hi else v)"

definition ropeFreq_entry :: "'f env \<Rightarrow> 'f config \<Rightarrow> nat \<Rightarrow> 'f" where
  \<comment> \<open>the value pushed by the body of the loop at lines 142 to 148, at counter \<open>i\<close>\<close>
  "ropeFreq_entry E c i =
     (let freq = fpow E (rope_theta c) (fdiv E (fneg E (fofnat E i)) (fofnat E (head_dim c)));
          z = fdiv E (fsub E (fdiv E (fmul E (fofnat E (original_max_position_embeddings c)) freq)
                                (fmul E (fofnat E 2) (fpi E)))
                         (low_freq_factor c))
                (fsub E (high_freq_factor c) (low_freq_factor c));
          z' = clamp E z (fofnat E 0) (fofnat E 1)
      in fmul E freq (fadd E (fdiv E (fsub E (fofnat E 1) z') (rope_factor c)) z'))"

text \<open>
  The loop at lines 142 to 148 advances its \<^verbatim>\<open>unsigned\<close> counter by \<^verbatim>\<open>i += 2\<close>; the counter
  wraps at \<open>2 ^ 32\<close>, so with \<^verbatim>\<open>head_dim\<close> at the largest \<^verbatim>\<open>unsigned\<close> value the loop does not
  leave.
\<close>

partial_function (option) ropeFreq_loop ::
  "'f env \<Rightarrow> 'f config \<Rightarrow> nat \<Rightarrow> 'f list \<Rightarrow> 'f list option" where
  "ropeFreq_loop E c i freqs =
     (if i < head_dim c then ropeFreq_loop E c (u32 (i + 2)) (freqs @ [ropeFreq_entry E c i])
      else Some freqs)"

definition loadConfig :: "'f env \<Rightarrow> 'f config \<Rightarrow> error + 'f Model" where
  "loadConfig E c =
     (if num_key_value_heads c = 0 then Inl DivisionByZero
      else bind_err (returned (ropeFreq_loop E c 0 [])) (\<lambda>freqs.
           Inr \<lparr> nLayers = num_hidden_layers c,
                 dVocab = vocab_size c,
                 dModel = hidden_size c,
                 dFFN = intermediate_size c,
                 dAttnHead = head_dim c,
                 dAttnKV = num_key_value_heads c,
                 dAttnQ = num_attention_heads c div num_key_value_heads c,
                 ropeFreq = freqs,
                 normEps = rms_norm_eps c,
                 embedTokens = indet_ptr E,
                 layers = [],
                 finalNorm = indet_ptr E,
                 parameterData = \<lparr> vsize = 0, storage = [] \<rparr> \<rparr>))"

text \<open>
  The weight container, after the length prefix and the JSON text of the header have been
  read and parsed into a JSON object: the header as the list of its members, and the bytes
  that follow it in the stream. A member \<open>j\<close> is described by what the three accessors of
  the source return on it, \<^verbatim>\<open>j["dtype"].get<std::string>()\<close>,
  \<^verbatim>\<open>j["data_offsets"][0].get<uint64_t>()\<close> and \<^verbatim>\<open>j["data_offsets"][1].get<uint64_t>()\<close>,
  each \<open>None\<close> where the JSON library throws its type error instead. A tensor entry has
  all three; the dictionary under \<^verbatim>\<open>__metadata__\<close> has none.
\<close>

datatype header_value = Member "string option" "nat option" "nat option"

abbreviation Tensor :: "string \<Rightarrow> nat \<Rightarrow> nat \<Rightarrow> header_value" where
  "Tensor dt start fin \<equiv> Member (Some dt) (Some start) (Some fin)"

abbreviation Other :: header_value where
  "Other \<equiv> Member None None None"

record container =
  header :: "(string \<times> header_value) list"
  region :: "8 word list"

definition erase :: "string \<Rightarrow> (string \<times> header_value) list \<Rightarrow> (string \<times> header_value) list" where
  "erase key hdr = filter (\<lambda>(k, v). k \<noteq> key) hdr"

fun max_offset :: "(string \<times> header_value) list \<Rightarrow> nat \<Rightarrow> error + nat" where
  "max_offset [] maxOffset = Inr maxOffset"
| "max_offset ((k, Member dt start (Some fin)) # es) maxOffset = max_offset es (max maxOffset fin)"
| "max_offset ((k, Member dt start None) # es) maxOffset = Inl JsonTypeError"

definition reserve :: "'f env \<Rightarrow> nat \<Rightarrow> bytevec \<Rightarrow> error + bytevec" where
  \<comment> \<open>\<^verbatim>\<open>std::vector::reserve\<close>: a larger allocation when needed; \<^verbatim>\<open>size()\<close> is unchanged\<close>
  "reserve E n v =
     (if max_size E < n then Inl LengthError
      else if length (storage v) < n
      then (if allocates E n
            then Inr (v\<lparr>storage := take (vsize v) (storage v)
                                   @ replicate (n - vsize v) (indet_byte E)\<rparr>)
            else Inl BadAlloc)
      else Inr v)"

definition chunkSize :: nat where
  "chunkSize = 2 ^ 16"

definition write_bytes :: "8 word list \<Rightarrow> nat \<Rightarrow> 8 word list \<Rightarrow> 8 word list" where
  "write_bytes buf i bytes = fold (\<lambda>j b. b[i + j := bytes ! j]) [0..<length bytes] buf"

text \<open>
  The chunk loop. \<^verbatim>\<open>file.read(p, n)\<close> stores the next \<open>n\<close> bytes of the stream at \<open>p\<close>,
  or those that are left when there are fewer. The result is the storage and the rest of
  the stream. The counter is a \<^verbatim>\<open>uint64_t\<close>; a bound near \<open>2 ^ 64\<close>, where it would wrap,
  is more than a vector can reserve.
\<close>

function read_chunks ::
  "nat \<Rightarrow> nat \<Rightarrow> 8 word list \<Rightarrow> 8 word list \<Rightarrow> 8 word list \<times> 8 word list" where
  "read_chunks maxOffset i file buf =
     (if i < maxOffset
      then let n = min chunkSize (maxOffset - i)
           in read_chunks maxOffset (i + chunkSize) (drop n file) (write_bytes buf i (take n file))
      else (buf, file))"
  by pat_completeness auto
termination
  by (relation "measure (\<lambda>(maxOffset, i, file, buf). maxOffset - i)") (auto simp: chunkSize_def)

declare read_chunks.simps [simp del]

definition load :: "(string \<times> header_value) list \<Rightarrow> string \<Rightarrow> error + nat" where
  "load hdr name =
     (case map_of hdr (''model.'' @ name @ ''.weight'') of
        None \<Rightarrow> Inl JsonTypeError
      | Some (Member dtype offset0 offset1) \<Rightarrow>
          (case dtype of
             None \<Rightarrow> Inl JsonTypeError
           | Some dt \<Rightarrow>
               if dt \<noteq> ''BF16'' then Inl (InvalidArgument ''Non-BF16 data'')
               else (case offset0 of None \<Rightarrow> Inl JsonTypeError | Some start \<Rightarrow> Inr start)))"

definition digit_char :: "nat \<Rightarrow> char" where
  "digit_char d = ''0123456789'' ! d"

fun show_nat :: "nat \<Rightarrow> string" where
  "show_nat n = (if n < 10 then [digit_char n] else show_nat (n div 10) @ [digit_char (n mod 10)])"

declare show_nat.simps [simp del]

definition layer_names :: "nat \<Rightarrow> string list" where
  "layer_names idx = map (\<lambda>name. ''layers.'' @ show_nat idx @ ''.'' @ name)
     [''input_layernorm'', ''self_attn.q_proj'', ''self_attn.k_proj'', ''self_attn.v_proj'',
      ''self_attn.o_proj'', ''post_attention_layernorm'', ''mlp.gate_proj'', ''mlp.up_proj'',
      ''mlp.down_proj'']"

definition load_layer :: "(string \<times> header_value) list \<Rightarrow> nat \<Rightarrow> error + Layer" where
  "load_layer hdr idx =
     (let pre = ''layers.'' @ show_nat idx @ ''.'' in
      bind_err (load hdr (pre @ ''input_layernorm'')) (\<lambda>an.
      bind_err (load hdr (pre @ ''self_attn.q_proj'')) (\<lambda>aq.
      bind_err (load hdr (pre @ ''self_attn.k_proj'')) (\<lambda>ak.
      bind_err (load hdr (pre @ ''self_attn.v_proj'')) (\<lambda>av.
      bind_err (load hdr (pre @ ''self_attn.o_proj'')) (\<lambda>ao.
      bind_err (load hdr (pre @ ''post_attention_layernorm'')) (\<lambda>mn.
      bind_err (load hdr (pre @ ''mlp.gate_proj'')) (\<lambda>mg.
      bind_err (load hdr (pre @ ''mlp.up_proj'')) (\<lambda>mu.
      bind_err (load hdr (pre @ ''mlp.down_proj'')) (\<lambda>md.
      Inr \<lparr> attnNorm = an, attnQ = aq, attnK = ak, attnV = av, attnO = ao,
            mlpNorm = mn, mlpUp = mu, mlpGate = mg, mlpDown = md \<rparr>))))))))))"

primrec load_layers ::
  "(string \<times> header_value) list \<Rightarrow> nat list \<Rightarrow> Layer list \<Rightarrow> error + Layer list" where
  "load_layers hdr [] ls = Inr ls"
| "load_layers hdr (idx # idxs) ls =
     bind_err (load_layer hdr idx) (\<lambda>layer. load_layers hdr idxs (ls @ [layer]))"

definition loadParameters :: "'f env \<Rightarrow> 'f Model \<Rightarrow> container \<Rightarrow> error + 'f Model" where
  "loadParameters E model file =
     (let hdr = erase ''__metadata__'' (header file) in
      bind_err (max_offset hdr 0) (\<lambda>maxOffset.
      bind_err (reserve E maxOffset (parameterData model)) (\<lambda>reserved.
      let (buf, rest) = read_chunks maxOffset 0 (region file) (storage reserved);
          model1 = model\<lparr>parameterData := reserved\<lparr>storage := buf\<rparr>\<rparr>
      in
      bind_err (load hdr ''embed_tokens'') (\<lambda>embed.
      bind_err (load_layers hdr [0..<nLayers model1] (layers model1)) (\<lambda>ls.
      bind_err (load hdr ''norm'') (\<lambda>norm.
      Inr (model1\<lparr>embedTokens := embed, layers := ls, finalNorm := norm\<rparr>)))))))"

section \<open>Ops\<close>

definition embeddingLookup :: "'f env \<Rightarrow> nat list \<Rightarrow> (nat \<Rightarrow> bf16) \<Rightarrow> nat \<Rightarrow> 'f list" where
  "embeddingLookup E tokens weight dModel' =
     fold (\<lambda>n. fold (\<lambda>i y. y[u32 (n * dModel' + i) :=
                  bf16_to_float E (weight (u32 (tokens ! n * dModel' + i)))]) [0..<dModel'])
       [0..<length tokens] (Activation E (length tokens * dModel'))"

definition rmsNorm_row ::
  "'f env \<Rightarrow> 'f list \<Rightarrow> (nat \<Rightarrow> bf16) \<Rightarrow> nat \<Rightarrow> 'f \<Rightarrow> nat \<Rightarrow> 'f list \<Rightarrow> 'f list" where
  "rmsNorm_row E x weight dModel' eps i0 y =
     (let sumSq = fold (\<lambda>i s. fadd E s (fmul E (x ! u32 (i0 + i)) (x ! u32 (i0 + i))))
                    [0..<dModel'] (fofnat E 0);
          norm = fdiv E (fofnat E 1)
                   (fsqrt E (fadd E (fdiv E sumSq (fofnat E dModel')) eps))
      in fold (\<lambda>i y. y[u32 (i0 + i) :=
                 fmul E (fmul E (x ! u32 (i0 + i)) norm) (bf16_to_float E (weight i))])
           [0..<dModel'] y)"

text \<open>
  The row loop of \<^verbatim>\<open>rmsNorm\<close> advances by \<^verbatim>\<open>i0 += dModel\<close> in \<^verbatim>\<open>unsigned\<close> arithmetic;
  with \<^verbatim>\<open>dModel = 0\<close> and a non-empty \<^verbatim>\<open>x\<close> it never leaves. Not returning is the value
  \<open>None\<close>.
\<close>

partial_function (option) rmsNorm_rows ::
  "'f env \<Rightarrow> 'f list \<Rightarrow> (nat \<Rightarrow> bf16) \<Rightarrow> nat \<Rightarrow> 'f \<Rightarrow> nat \<Rightarrow> 'f list \<Rightarrow> 'f list option" where
  "rmsNorm_rows E x weight dModel' eps i0 y =
     (if i0 < length x
      then rmsNorm_rows E x weight dModel' eps (u32 (i0 + dModel'))
             (rmsNorm_row E x weight dModel' eps i0 y)
      else Some y)"

definition rmsNorm :: "'f env \<Rightarrow> 'f list \<Rightarrow> (nat \<Rightarrow> bf16) \<Rightarrow> nat \<Rightarrow> 'f \<Rightarrow> 'f list option" where
  "rmsNorm E x weight dModel' eps =
     rmsNorm_rows E x weight dModel' eps 0 (Activation E (length x))"

definition dot_row :: "'f env \<Rightarrow> 'f list \<Rightarrow> (nat \<Rightarrow> bf16) \<Rightarrow> nat \<Rightarrow> nat \<Rightarrow> nat \<Rightarrow> 'f" where
  "dot_row E x weight dIn n j =
     fold (\<lambda>i dot. fadd E dot (fmul E (x ! u32 (n * dIn + i))
                                  (bf16_to_float E (weight (u32 (j * dIn + i))))))
       [0..<dIn] (fofnat E 0)"

text \<open>
  \<^verbatim>\<open>project\<close>: the iterations of the loop over \<open>j\<close> (the \<^verbatim>\<open>omp parallel for\<close>) write
  disjoint entries and read none that another writes; they are taken in index order.
  \<^verbatim>\<open>x.size / dIn\<close> is a division of integers.
\<close>

definition project ::
  "'f env \<Rightarrow> 'f list \<Rightarrow> (nat \<Rightarrow> bf16) \<Rightarrow> nat \<Rightarrow> nat \<Rightarrow> error + 'f list" where
  "project E x weight dIn dOut =
     (if dIn = 0 then Inl DivisionByZero
      else Inr (fold (\<lambda>j. fold (\<lambda>n y. y[u32 (n * dOut + j) := dot_row E x weight dIn n j])
                            [0..<length x div dIn])
                  [0..<dOut] (Activation E (length x div dIn * dOut))))"

definition rotate :: "'f env \<Rightarrow> 'f list \<Rightarrow> 'f list \<Rightarrow> nat \<Rightarrow> error + 'f list" where
  "rotate E x freq nHeads =
     (let headDim = u32 (2 * length freq) in
      if u32 (nHeads * headDim) = 0 then Inl DivisionByZero
      else Inr (fold (\<lambda>n. fold (\<lambda>h. fold (\<lambda>i y.
                   let idxRe = u32 (n * nHeads * headDim + h * headDim + i);
                       idxIm = idxRe + length freq;
                       cosA = fcos E (fmul E (freq ! i) (fofnat E n));
                       sinA = fsin E (fmul E (freq ! i) (fofnat E n));
                       y1 = y[idxRe := fsub E (fmul E cosA (x ! idxRe)) (fmul E sinA (x ! idxIm))]
                   in y1[idxIm := fadd E (fmul E cosA (x ! idxIm)) (fmul E sinA (x ! idxRe))])
                 [0..<length freq]) [0..<nHeads])
               [0..<length x div u32 (nHeads * headDim)] (Activation E (length x))))"

text \<open>
  \<^verbatim>\<open>std::max_element\<close> as the offset of the iterator it returns: the first of the
  largest elements under \<^verbatim>\<open>operator<\<close>, and the end (offset 0) of an empty range.
\<close>

definition max_element :: "'f env \<Rightarrow> 'f list \<Rightarrow> nat" where
  "max_element E xs =
     fold (\<lambda>i largest. if fless E (xs ! largest) (xs ! i) then i else largest)
       [1..<length xs] 0"

text \<open>
  \<^verbatim>\<open>softmaxInPlace\<close> returns the buffer as the call leaves it. (On an empty buffer the
  source dereferences the end iterator for \<open>max\<close> and then runs no loop.)
\<close>

definition softmaxInPlace :: "'f env \<Rightarrow> 'f list \<Rightarrow> 'f list" where
  "softmaxInPlace E x =
     (let max = x ! max_element E x;
          (x1, sum) = fold (\<lambda>i (x, sum).
                         let x' = x[i := fexp E (fsub E (x ! i) max)]
                         in (x', fadd E sum (x' ! i)))
                       [0..<length x] (x, fofnat E 0)
      in fold (\<lambda>i x. x[i := fdiv E (x ! i) sum]) [0..<length x] x1)"

definition attn_scores ::
  "'f env \<Rightarrow> 'f list \<Rightarrow> 'f list \<Rightarrow> nat \<Rightarrow> nat \<Rightarrow> nat \<Rightarrow> nat \<Rightarrow> nat \<Rightarrow> nat \<Rightarrow> 'f list" where
  "attn_scores E q k dKV dQ dHead iKV sQ iQ =
     fold (\<lambda>sKV scores.
             let sum = fold (\<lambda>i sum. fadd E sum
                          (fmul E (q ! u32 (sQ * dKV * dQ * dHead + iKV * dQ * dHead + iQ * dHead + i))
                                  (k ! u32 (sKV * dKV * dHead + iKV * dHead + i))))
                        [0..<dHead] (fofnat E 0)
             in scores[sKV := fdiv E sum (fsqrt E (fofnat E dHead))])
       [0..<Suc sQ] (Activation E (u32 (sQ + 1)))"

definition attn_mix :: "'f env \<Rightarrow> 'f list \<Rightarrow> 'f list \<Rightarrow> nat \<Rightarrow> nat \<Rightarrow> nat \<Rightarrow> nat \<Rightarrow> nat \<Rightarrow> 'f" where
  "attn_mix E scores v dKV dHead iKV sQ i =
     fold (\<lambda>sKV sum. fadd E sum
             (fmul E (scores ! sKV) (v ! u32 (sKV * dKV * dHead + iKV * dHead + i))))
       [0..<Suc sQ] (fofnat E 0)"

text \<open>
  \<^verbatim>\<open>selfAttention\<close>, with \<open>q\<close> of shape (seq, dKV, dQ, dHead) and \<open>k\<close>, \<open>v\<close> of shape
  (seq, dKV, dHead), as the source's comment has it. The inner loops over \<open>sKV\<close> run while
  \<^verbatim>\<open>sKV <= sQ\<close>.
\<close>

definition selfAttention ::
  "'f env \<Rightarrow> 'f list \<Rightarrow> 'f list \<Rightarrow> 'f list \<Rightarrow> nat \<Rightarrow> nat \<Rightarrow> nat \<Rightarrow> error + 'f list" where
  "selfAttention E q k v dKV dQ dHead =
     (if u32 (dKV * dHead) = 0 then Inl DivisionByZero
      else let dSeq = length k div u32 (dKV * dHead) in
        Inr (fold (\<lambda>iKV. fold (\<lambda>sQ. fold (\<lambda>iQ out.
                 let scores = softmaxInPlace E (attn_scores E q k dKV dQ dHead iKV sQ iQ)
                 in fold (\<lambda>i out.
                      out[u32 (sQ * dKV * dQ * dHead + iKV * dQ * dHead + iQ * dHead + i) :=
                            attn_mix E scores v dKV dHead iKV sQ i])
                    [0..<dHead] out)
               [0..<dQ]) [0..<dSeq])
             [0..<dKV] (Activation E (length q))))"

definition addInPlace :: "'f env \<Rightarrow> 'f list \<Rightarrow> 'f list \<Rightarrow> 'f list" where
  "addInPlace E lhs rhs =
     fold (\<lambda>i lhs. lhs[i := fadd E (lhs ! i) (rhs ! i)]) [0..<length lhs] lhs"

definition swiGluInPlace :: "'f env \<Rightarrow> 'f list \<Rightarrow> 'f list \<Rightarrow> 'f list" where
  "swiGluInPlace E x gate =
     fold (\<lambda>i x. x[i := fmul E (x ! i)
             (fdiv E (gate ! i) (fadd E (fofnat E 1) (fexp E (fneg E (gate ! i)))))])
       [0..<length x] x"

section \<open>Model ops\<close>

definition attention :: "'f env \<Rightarrow> 'f Model \<Rightarrow> Layer \<Rightarrow> 'f list \<Rightarrow> error + 'f list" where
  "attention E m layer x =
     bind_err (returned (rmsNorm E x (get_bf16 E m (attnNorm layer)) (dModel m) (normEps m))) (\<lambda>z.
     bind_err (project E z (get_bf16 E m (attnQ layer)) (dModel m)
                 (u32 (dAttnKV m * dAttnQ m * dAttnHead m))) (\<lambda>q.
     bind_err (project E z (get_bf16 E m (attnK layer)) (dModel m)
                 (u32 (dAttnKV m * dAttnHead m))) (\<lambda>k.
     bind_err (project E z (get_bf16 E m (attnV layer)) (dModel m)
                 (u32 (dAttnKV m * dAttnHead m))) (\<lambda>v.
     bind_err (rotate E q (ropeFreq m) (u32 (dAttnKV m * dAttnQ m))) (\<lambda>q'.
     bind_err (rotate E k (ropeFreq m) (dAttnKV m)) (\<lambda>k'.
     bind_err (selfAttention E q' k' v (dAttnKV m) (dAttnQ m) (dAttnHead m)) (\<lambda>mix.
     project E mix (get_bf16 E m (attnO layer))
       (u32 (dAttnKV m * dAttnQ m * dAttnHead m)) (dModel m))))))))"

definition mlp :: "'f env \<Rightarrow> 'f Model \<Rightarrow> Layer \<Rightarrow> 'f list \<Rightarrow> error + 'f list" where
  "mlp E m layer x =
     bind_err (returned (rmsNorm E x (get_bf16 E m (mlpNorm layer)) (dModel m) (normEps m))) (\<lambda>z.
     bind_err (project E z (get_bf16 E m (mlpUp layer)) (dModel m) (dFFN m)) (\<lambda>up.
     bind_err (project E z (get_bf16 E m (mlpGate layer)) (dModel m) (dFFN m)) (\<lambda>gate.
     project E (swiGluInPlace E up gate) (get_bf16 E m (mlpDown layer)) (dFFN m) (dModel m))))"

definition layer_step :: "'f env \<Rightarrow> 'f Model \<Rightarrow> Layer \<Rightarrow> 'f list \<Rightarrow> error + 'f list" where
  "layer_step E m layer hidden =
     bind_err (attention E m layer hidden) (\<lambda>a.
     let hidden1 = addInPlace E hidden a in
     bind_err (mlp E m layer hidden1) (\<lambda>f. Inr (addInPlace E hidden1 f)))"

primrec run_layers :: "'f env \<Rightarrow> 'f Model \<Rightarrow> Layer list \<Rightarrow> 'f list \<Rightarrow> error + 'f list" where
  "run_layers E m [] hidden = Inr hidden"
| "run_layers E m (layer # ls) hidden = bind_err (layer_step E m layer hidden) (run_layers E m ls)"

text \<open>
  \<^verbatim>\<open>predict\<close> up to the final normalization (the value of \<^verbatim>\<open>hidden\<close> at line 358), and
  \<^verbatim>\<open>predict\<close> itself, whose result is the token it prints. The range handed to
  \<^verbatim>\<open>std::max_element\<close> starts at \<^verbatim>\<open>logits.data + logits.size - dVocab\<close>; when \<^verbatim>\<open>dVocab\<close>
  exceeds \<^verbatim>\<open>logits.size\<close> that start lies before the buffer and the first read is outside it.
\<close>

definition final_hidden :: "'f env \<Rightarrow> 'f Model \<Rightarrow> nat list \<Rightarrow> error + 'f list" where
  "final_hidden E m tokens =
     bind_err (run_layers E m (layers m)
                 (embeddingLookup E tokens (get_bf16 E m (embedTokens m)) (dModel m))) (\<lambda>hidden.
     returned (rmsNorm E hidden (get_bf16 E m (finalNorm m)) (dModel m) (normEps m)))"

definition predict :: "'f env \<Rightarrow> 'f Model \<Rightarrow> nat list \<Rightarrow> error + nat" where
  "predict E m tokens =
     bind_err (final_hidden E m tokens) (\<lambda>hidden.
     bind_err (project E hidden (get_bf16 E m (embedTokens m)) (dModel m) (dVocab m)) (\<lambda>logits.
     if dVocab m \<le> length logits
     then Inr (max_element E (drop (length logits - dVocab m) logits))
     else Inl OutOfBounds))"

section \<open>Driver program\<close>

text \<open>
  \<^verbatim>\<open>main\<close> after its check of the argument count: both loads, then two calls of
  \<^verbatim>\<open>predict\<close> for every input line. A line is given by the tokens read from it (none for
  an empty line); the result lists the tokens printed.
\<close>

primrec run_lines :: "'f env \<Rightarrow> 'f Model \<Rightarrow> nat list list \<Rightarrow> error + nat list" where
  "run_lines E m [] = Inr []"
| "run_lines E m (tokens # rest) =
     bind_err (predict E m tokens) (\<lambda>t1.
     bind_err (predict E m tokens) (\<lambda>t2.
     bind_err (run_lines E m rest) (\<lambda>ts. Inr (t1 # t2 # ts))))"

definition main :: "'f env \<Rightarrow> 'f config \<Rightarrow> container \<Rightarrow> nat list list \<Rightarrow> error + nat list" where
  "main E configFile dataFile lines =
     bind_err (loadConfig E configFile) (\<lambda>model0.
     bind_err (loadParameters E model0 dataFile) (\<lambda>model.
     run_lines E model lines))"

section \<open>A reference arithmetic\<close>

text \<open>
  One environment, for running the operators on concrete inputs: the values of IEEE 754
  (finite numbers, the two infinities, NaN) with the standard's rules for the special
  values, and exact real arithmetic on finite numbers (no rounding and no overflow; the
  two zeros are one). It is not the arithmetic of the machine, which rounds to
  \<^verbatim>\<open>float\<close>. It only exhibits runs, at inputs where the machine computes the same values
  (small integers and their quotients by powers of two, the special values); every
  statement about the program is made for an arbitrary environment.
\<close>

datatype xfloat = Fin real | PInf | NInf | NaN

fun xneg :: "xfloat \<Rightarrow> xfloat" where
  "xneg (Fin a) = Fin (- a)"
| "xneg PInf = NInf"
| "xneg NInf = PInf"
| "xneg NaN = NaN"

fun xadd :: "xfloat \<Rightarrow> xfloat \<Rightarrow> xfloat" where
  "xadd (Fin a) (Fin b) = Fin (a + b)"
| "xadd NaN b = NaN"
| "xadd a NaN = NaN"
| "xadd PInf NInf = NaN"
| "xadd NInf PInf = NaN"
| "xadd PInf b = PInf"
| "xadd a PInf = PInf"
| "xadd NInf b = NInf"
| "xadd a NInf = NInf"

definition xsub :: "xfloat \<Rightarrow> xfloat \<Rightarrow> xfloat" where
  "xsub a b = xadd a (xneg b)"

definition signed_inf :: "bool \<Rightarrow> xfloat" where
  "signed_inf negative = (if negative then NInf else PInf)"

fun xmul :: "xfloat \<Rightarrow> xfloat \<Rightarrow> xfloat" where
  "xmul (Fin a) (Fin b) = Fin (a * b)"
| "xmul NaN b = NaN"
| "xmul a NaN = NaN"
| "xmul (Fin a) PInf = (if a = 0 then NaN else signed_inf (a < 0))"
| "xmul (Fin a) NInf = (if a = 0 then NaN else signed_inf (0 < a))"
| "xmul PInf (Fin b) = (if b = 0 then NaN else signed_inf (b < 0))"
| "xmul NInf (Fin b) = (if b = 0 then NaN else signed_inf (0 < b))"
| "xmul PInf PInf = PInf"
| "xmul NInf NInf = PInf"
| "xmul PInf NInf = NInf"
| "xmul NInf PInf = NInf"

fun xdiv :: "xfloat \<Rightarrow> xfloat \<Rightarrow> xfloat" where
  "xdiv (Fin a) (Fin b) =
     (if b = 0 then (if a = 0 then NaN else signed_inf (a < 0)) else Fin (a / b))"
| "xdiv NaN b = NaN"
| "xdiv a NaN = NaN"
| "xdiv (Fin a) b = Fin 0"
| "xdiv PInf (Fin b) = signed_inf (b < 0)"
| "xdiv NInf (Fin b) = signed_inf (0 \<le> b)"
| "xdiv a b = NaN"

fun xless :: "xfloat \<Rightarrow> xfloat \<Rightarrow> bool" where
  "xless (Fin a) (Fin b) = (a < b)"
| "xless NaN b = False"
| "xless a NaN = False"
| "xless a NInf = False"
| "xless PInf b = False"
| "xless a b = True"

fun xexp :: "xfloat \<Rightarrow> xfloat" where
  "xexp (Fin a) = Fin (exp a)"
| "xexp PInf = PInf"
| "xexp NInf = Fin 0"
| "xexp NaN = NaN"

fun xsqrt :: "xfloat \<Rightarrow> xfloat" where
  "xsqrt (Fin a) = (if a < 0 then NaN else Fin (sqrt a))"
| "xsqrt PInf = PInf"
| "xsqrt a = NaN"

fun xcos :: "xfloat \<Rightarrow> xfloat" where
  "xcos (Fin a) = Fin (cos a)"
| "xcos a = NaN"

fun xsin :: "xfloat \<Rightarrow> xfloat" where
  "xsin (Fin a) = Fin (sin a)"
| "xsin a = NaN"

definition is_odd_integer :: "real \<Rightarrow> bool" where
  "is_odd_integer b = (b = of_int \<lfloor>b\<rfloor> \<and> odd \<lfloor>b\<rfloor>)"

fun xpow :: "xfloat \<Rightarrow> xfloat \<Rightarrow> xfloat" where
  "xpow (Fin a) (Fin b) =
     (if b = 0 \<or> a = 1 then Fin 1
      else if 0 < a then Fin (a powr b)
      else if a = 0 then (if 0 < b then Fin 0 else PInf)
      else if b = of_int \<lfloor>b\<rfloor> then Fin (a powi \<lfloor>b\<rfloor>)
      else NaN)"
| "xpow a (Fin b) =
     (if b = 0 then Fin 1
      else if a = NaN then NaN
      else if a = PInf then (if 0 < b then PInf else Fin 0)
      else if b < 0 then Fin 0
      else if is_odd_integer b then NInf else PInf)"
| "xpow (Fin a) b =
     (if a = 1 then Fin 1
      else if b = NaN then NaN
      else if \<bar>a\<bar> = 1 then Fin 1
      else if (b = PInf) = (1 < \<bar>a\<bar>) then PInf else Fin 0)"
| "xpow a b = (if a = NaN \<or> b = NaN then NaN else if b = PInf then PInf else Fin 0)"

definition x_of_bits :: "32 word \<Rightarrow> xfloat" where
  \<comment> \<open>the value of an IEEE 754 binary32 pattern\<close>
  "x_of_bits w =
     (let negative = (drop_bit 31 w \<noteq> 0);
          e = unat (take_bit 8 (drop_bit 23 w));
          f = unat (take_bit 23 w);
          s = (if negative then - 1 else 1 :: real)
      in if e = 255 then (if f = 0 then signed_inf negative else NaN)
         else if e = 0 then Fin (s * real f / 2 ^ 149)
         else Fin (s * (1 + real f / 2 ^ 23) * 2 ^ e / 2 ^ 127))"

definition xenv :: "xfloat env" where
  "xenv = \<lparr> fofnat = (\<lambda>n. Fin (real n)), fadd = xadd, fsub = xsub, fmul = xmul, fdiv = xdiv,
            fneg = xneg, fless = xless, fexp = xexp, fsqrt = xsqrt, fcos = xcos, fsin = xsin,
            fpow = xpow, fpi = Fin pi, of_bits = x_of_bits, indet = NaN, indet_byte = 0,
            indet_ptr = 0, max_size = 2 ^ 63 - 1, allocates = (\<lambda>n. True) \<rparr>"

section \<open>Shapes\<close>








section \<open>Well-formed inputs\<close>

text \<open>
  A model whose integer divisions all have a divisor other than zero (the widths of
  \<^verbatim>\<open>project\<close>, the row sizes of \<^verbatim>\<open>rotate\<close> and \<^verbatim>\<open>selfAttention\<close>), and whose \<^verbatim>\<open>rmsNorm\<close>
  loop advances.
\<close>

definition model_ok :: "'f Model \<Rightarrow> bool" where
  "model_ok m \<longleftrightarrow>
     0 < dModel m \<and> 0 < dFFN m \<and> 0 < u32 (dAttnKV m * dAttnHead m)
     \<and> 0 < u32 (dAttnKV m * dAttnQ m * dAttnHead m)
     \<and> 0 < u32 (u32 (dAttnKV m * dAttnQ m) * u32 (2 * length (ropeFreq m)))
     \<and> 0 < u32 (dAttnKV m * u32 (2 * length (ropeFreq m)))"

text \<open>
  A sequence of \<open>n\<close> tokens all of whose buffers in the forward pass (hidden state,
  query heads, feed-forward state, logits) have fewer than \<open>2 ^ 32\<close> entries, so that every
  \<^verbatim>\<open>unsigned\<close> loop counter of the source reaches its bound.
\<close>

definition buffers_fit :: "'f Model \<Rightarrow> nat \<Rightarrow> bool" where
  "buffers_fit m n \<longleftrightarrow>
     n * dModel m < 2 ^ 32 \<and> n * dFFN m < 2 ^ 32 \<and> n * dVocab m < 2 ^ 32
     \<and> n * (dAttnKV m * dAttnQ m * dAttnHead m) < 2 ^ 32"

text \<open>
  The names \<^verbatim>\<open>loadParameters\<close> passes to \<^verbatim>\<open>load\<close> for a model of \<open>n\<close> layers, in the order
  of the calls, and a header in which every member is a tensor entry and each of these
  names has one.
\<close>

definition required_names :: "nat \<Rightarrow> string list" where
  "required_names n = ''embed_tokens'' # concat (map layer_names [0..<n]) @ [''norm'']"

fun is_tensor :: "header_value \<Rightarrow> bool" where
  "is_tensor (Member dtype offset0 offset1) \<longleftrightarrow> dtype \<noteq> None \<and> offset0 \<noteq> None \<and> offset1 \<noteq> None"

definition well_formed_header :: "(string \<times> header_value) list \<Rightarrow> nat \<Rightarrow> bool" where
  "well_formed_header hdr n \<longleftrightarrow>
     list_all (\<lambda>(k, v). is_tensor v) hdr
     \<and> list_all (\<lambda>name. map_of hdr (''model.'' @ name @ ''.weight'') \<noteq> None) (required_names n)"

text \<open>
  A smallest model, for running the loaders and \<^verbatim>\<open>predict\<close>: no layer, width 1, a
  vocabulary of two tokens whose embeddings are the bf16 values 1 and 2, and the final
  norm weight 1.
\<close>

definition tiny_config :: "xfloat config" where
  "tiny_config = \<lparr> num_hidden_layers = 0, vocab_size = 2, hidden_size = 1,
     intermediate_size = 1, head_dim = 2, num_key_value_heads = 1, num_attention_heads = 1,
     rms_norm_eps = Fin 0, rope_theta = Fin 10000, rope_factor = Fin 32, low_freq_factor = Fin 1,
     high_freq_factor = Fin 4, original_max_position_embeddings = 8192 \<rparr>"

definition tiny_file :: container where
  "tiny_file = \<lparr> header = [(''__metadata__'', Other),
                              (''model.embed_tokens.weight'', Tensor ''BF16'' 0 4),
                              (''model.norm.weight'', Tensor ''BF16'' 4 6)],
                   region = [0x80, 0x3F, 0x00, 0x40, 0x80, 0x3F] \<rparr>"

text \<open>
  A model with a vocabulary of \<open>2 ^ 31\<close> tokens and width 1, for running \<^verbatim>\<open>predict\<close> on
  three tokens, where the logits buffer has more than \<open>2 ^ 32\<close> entries: the embeddings are
  the bf16 values 1 (token 0), 2 (token 1) and 0 (every other token), the final norm weight
  is 1.
\<close>

definition big_config :: "xfloat config" where
  "big_config = tiny_config\<lparr>vocab_size := 2 ^ 31\<rparr>"

definition big_file :: container where
  "big_file = \<lparr> header = [(''model.embed_tokens.weight'', Tensor ''BF16'' 0 (2 ^ 32)),
                             (''model.norm.weight'', Tensor ''BF16'' (2 ^ 32) (2 ^ 32 + 2))],
                  region = [0x80, 0x3F, 0x00, 0x40] @ replicate (2 ^ 32 - 4) 0 @ [0x80, 0x3F] \<rparr>"


text \<open>
  What "the arg-max index" of a buffer means where \<^verbatim>\<open>operator<\<close> orders its entries (a
  strict weak order: no NaN among them): the first index whose entry no entry exceeds.
\<close>

definition strict_weak_order_on :: "'f env \<Rightarrow> 'f set \<Rightarrow> bool" where
  "strict_weak_order_on E A \<longleftrightarrow>
     (\<forall>a\<in>A. \<not> fless E a a)
     \<and> (\<forall>a\<in>A. \<forall>b\<in>A. \<forall>c\<in>A. fless E a b \<longrightarrow> fless E b c \<longrightarrow> fless E a c)
     \<and> (\<forall>a\<in>A. \<forall>b\<in>A. \<forall>c\<in>A. fless E a b \<longrightarrow> fless E a c \<or> fless E c b)"

definition first_argmax :: "'f env \<Rightarrow> 'f list \<Rightarrow> nat \<Rightarrow> bool" where
  "first_argmax E xs r \<longleftrightarrow>
     r < length xs \<and> (\<forall>j<length xs. \<not> fless E (xs ! r) (xs ! j))
     \<and> (\<forall>j<r. fless E (xs ! j) (xs ! r))"

section \<open>The low-precision codec\<close>

text \<open>
  C4. For every 16-bit stored value \<open>v\<close> the decoder builds the 32-bit pattern with \<open>v\<close>
  in the upper half and zeros in the lower half, and returns the float with that
  pattern; the upper 16 bits of the pattern are \<open>v\<close> again, for all \<open>2 ^ 16\<close> values.
\<close>

theorem bf16_to_float_roundtrip:
  "bf16_to_float E v = of_bits E (bf16_to_float_bits v)
   \<and> bf16_to_float_bits v = push_bit 16 (ucast v)
   \<and> take_bit 16 (bf16_to_float_bits v) = 0
   \<and> ucast (drop_bit 16 (bf16_to_float_bits v)) = v"
proof -
  have b: "bf16_to_float_bits v = push_bit 16 (ucast v)"
    by (simp add: bf16_to_float_bits_def union_bits_def)
  have lo: "take_bit 16 (push_bit 16 (ucast v :: 32 word)) = 0"
    by (simp add: take_bit_push_bit)
  have hi: "ucast (drop_bit 16 (push_bit 16 (ucast v :: 32 word))) = v"
    by (rule bit_word_eqI) (auto simp add: bit_simps)
  show ?thesis
    by (simp add: bf16_to_float_def b lo hi)
qed

section \<open>Folds that store into a buffer\<close>

lemma fold_length_pres:
  assumes "\<And>t s. t \<in> set ts \<Longrightarrow> length (f t s) = length s"
  shows "length (fold f ts s) = length s"
  using assms by (induction ts arbitrary: s) simp_all

lemma fold_product:
  "fold f (List.product xs ys) = fold (\<lambda>x. fold (\<lambda>y. f (x, y)) ys) xs"
  by (induction xs) (simp_all add: fold_map comp_def)

lemma scatter_nth:
  assumes "t0 \<in> set ts" and "idx t0 < length s"
    and "\<And>t. t \<in> set ts \<Longrightarrow> idx t = idx t0 \<Longrightarrow> val t = val t0"
  shows "fold (\<lambda>t s. s[idx t := val t]) ts s ! idx t0 = val t0"
  using assms
proof (induction ts rule: rev_induct)
  case Nil
  then show ?case by simp
next
  case (snoc a ts)
  have len: "length (fold (\<lambda>t s. s[idx t := val t]) ts s) = length s"
    by (rule fold_length_pres) simp
  show ?case
  proof (cases "idx a = idx t0")
    case True
    then have "val a = val t0" using snoc.prems(3) [of a] by simp
    with True show ?thesis using snoc.prems(2) len by simp
  next
    case False
    then have "t0 \<in> set ts" using snoc.prems(1) by auto
    have "fold (\<lambda>t s. s[idx t := val t]) ts s ! idx t0 = val t0"
    proof (rule snoc.IH)
      show "t0 \<in> set ts" by fact
      show "idx t0 < length s" by (rule snoc.prems(2))
      show "val t = val t0" if "t \<in> set ts" "idx t = idx t0" for t
        using that snoc.prems(3) [of t] by simp
    qed
    with False show ?thesis by simp
  qed
qed

lemma scatter_other:
  assumes "\<And>t. t \<in> set ts \<Longrightarrow> idx t \<noteq> j"
  shows "fold (\<lambda>t s. s[idx t := val t]) ts s ! j = s ! j"
  using assms by (induction ts arbitrary: s) simp_all

lemma fill_eq:
  "n \<le> length y \<Longrightarrow> fold (\<lambda>i y. y[i := g i]) [0..<n] y = map g [0..<n] @ drop n y"
proof (induction n)
  case 0
  then show ?case by simp
next
  case (Suc n)
  then have "fold (\<lambda>i y. y[i := g i]) [0..<Suc n] y = (map g [0..<n] @ drop n y)[n := g n]"
    by simp
  also have "\<dots> = map g [0..<n] @ (drop n y)[0 := g n]"
    by (simp add: list_update_append)
  also have "(drop n y)[0 := g n] = g n # drop (Suc n) y"
    using Suc.prems by (metis Cons_nth_drop_Suc Suc_le_lessD list_update_code(2))
  finally show ?case by simp
qed


section \<open>Index arithmetic\<close>

lemma radix_bound: "a < A \<Longrightarrow> b < n \<Longrightarrow> a * n + b < A * (n::nat)"
proof -
  assume a: "a < A" and b: "b < n"
  have "a * n + b < a * n + n" using b by simp
  also have "\<dots> = Suc a * n" by simp
  also have "\<dots> \<le> A * n" using a by (intro mult_le_mono1) simp
  finally show ?thesis .
qed

lemma radix_inj:
  assumes "b < n" "b' < n" "a * n + b = a' * n + (b'::nat)"
  shows "a = a' \<and> b = b'"
proof -
  have "(a * n + b) div n = a" "(a * n + b) mod n = b" using assms(1) by simp_all
  moreover have "(a' * n + b') div n = a'" "(a' * n + b') mod n = b'" using assms(2) by simp_all
  ultimately show ?thesis using assms(3) by metis
qed






section \<open>Causal grouped-query attention\<close>

lemma u32_id: "n < 2 ^ 32 \<Longrightarrow> u32 n = n"
  by (simp add: u32_def)












section \<open>Softmax\<close>





lemma xenv_simps [simp]:
  "fofnat xenv n = Fin (real n)" "fadd xenv = xadd" "fsub xenv = xsub" "fmul xenv = xmul"
  "fdiv xenv = xdiv" "fneg xenv = xneg" "fless xenv = xless" "fexp xenv = xexp"
  "fsqrt xenv = xsqrt" "fcos xenv = xcos" "fsin xenv = xsin" "fpow xenv = xpow"
  "fpi xenv = Fin pi" "of_bits xenv = x_of_bits" "indet xenv = NaN" "indet_byte xenv = 0"
  "indet_ptr xenv = 0" "max_size xenv = 2 ^ 63 - 1" "allocates xenv n"
  by (simp_all add: xenv_def)














section \<open>Attention over a single position\<close>








section \<open>The pipeline returns\<close>

lemma project_Inr:
  assumes "0 < dIn"
  shows "\<exists>y. project E x weight dIn dOut = Inr y \<and> length y = length x div dIn * dOut"
proof -
  have "length (fold (\<lambda>j. fold (\<lambda>n y. y[u32 (n * dOut + j) := dot_row E x weight dIn n j])
                            [0..<length x div dIn])
                  [0..<dOut] (Activation E (length x div dIn * dOut)))
        = length (Activation E (length x div dIn * dOut))"
    by (intro fold_length_pres) simp
  then show ?thesis using assms by (simp add: project_def Activation_def)
qed

lemma project_nth:
  assumes d: "0 < dIn" and b: "length x div dIn * dOut < 2 ^ 32"
    and n: "n < length x div dIn" and j: "j < dOut"
    and p: "project E x weight dIn dOut = Inr y"
  shows "y ! (n * dOut + j) = dot_row E x weight dIn n j"
proof -
  let ?N = "length x div dIn"
  let ?idx = "\<lambda>t. case t of (j, n) \<Rightarrow> u32 (n * dOut + j)"
  let ?val = "\<lambda>t. case t of (j, n) \<Rightarrow> dot_row E x weight dIn n j"
  let ?ts = "List.product [0..<dOut] [0..<?N]"
  have y: "y = fold (\<lambda>t y. y[?idx t := ?val t]) ?ts (Activation E (?N * dOut))"
    using p d by (simp add: project_def fold_product)
  have inrange: "u32 (n' * dOut + j') = n' * dOut + j'" and bound: "n' * dOut + j' < ?N * dOut"
    if "n' < ?N" "j' < dOut" for n' j'
  proof -
    show "n' * dOut + j' < ?N * dOut" by (rule radix_bound [OF that])
    then have "n' * dOut + j' < 2 ^ 32" using b by (rule less_trans)
    then show "u32 (n' * dOut + j') = n' * dOut + j'" by (rule u32_id)
  qed
  have "fold (\<lambda>t y. y[?idx t := ?val t]) ?ts (Activation E (?N * dOut)) ! ?idx (j, n) = ?val (j, n)"
  proof (rule scatter_nth)
    show "(j, n) \<in> set ?ts" using n j by simp
    show "?idx (j, n) < length (Activation E (?N * dOut))"
      using inrange [OF n j] bound [OF n j] by (simp add: Activation_def)
    show "?val t = ?val (j, n)" if t: "t \<in> set ?ts" "?idx t = ?idx (j, n)" for t
    proof -
      obtain j' n' where tt: "t = (j', n')" by (cases t) auto
      with t(1) have rr: "n' < ?N" "j' < dOut" by simp_all
      from t(2) have "n' * dOut + j' = n * dOut + j"
        using inrange [OF rr] inrange [OF n j] by (simp add: tt)
      from radix_inj [OF rr(2) j this] show ?thesis by (simp add: tt)
    qed
  qed
  then show ?thesis using inrange [OF n j] y by simp
qed

lemma rmsNorm_row_length: "length (rmsNorm_row E x weight d eps i0 y) = length y"
  unfolding rmsNorm_row_def Let_def by (intro fold_length_pres) simp

lemma rmsNorm_rows_returns:
  assumes d: "0 < d" and rows: "d dvd length x" and b: "length x < 2 ^ 32"
  shows "d dvd i0 \<Longrightarrow> \<exists>y'. rmsNorm_rows E x weight d eps i0 y = Some y' \<and> length y' = length y"
proof (induction "length x - i0" arbitrary: i0 y rule: less_induct)
  case less
  show ?case
  proof (cases "i0 < length x")
    case True
    obtain a where a: "length x = d * a" using rows by (rule dvdE)
    obtain c where c: "i0 = d * c" using less.prems by (rule dvdE)
    from True d have "c < a" by (simp add: a c)
    then have "d * Suc c \<le> d * a" by (intro mult_le_mono2) simp
    then have le: "i0 + d \<le> length x" by (simp add: a c)
    then have u: "u32 (i0 + d) = i0 + d" using b by (intro u32_id) simp
    have "length x - (i0 + d) < length x - i0" using True d by simp
    moreover have "d dvd i0 + d" using less.prems by simp
    ultimately have "\<exists>y'. rmsNorm_rows E x weight d eps (i0 + d) (rmsNorm_row E x weight d eps i0 y) = Some y'
        \<and> length y' = length (rmsNorm_row E x weight d eps i0 y)"
      by (rule less.hyps)
    then show ?thesis
      using True by (subst rmsNorm_rows.simps) (simp add: rmsNorm_row_length u)
  next
    case False
    then show ?thesis by (subst rmsNorm_rows.simps) simp
  qed
qed

lemma rmsNorm_returns:
  assumes "0 < d" and "length x = N * d" and "N * d < 2 ^ 32"
  shows "\<exists>y. returned (rmsNorm E x weight d eps) = Inr y \<and> length y = length x"
proof -
  have "d dvd length x" "length x < 2 ^ 32" using assms by simp_all
  from rmsNorm_rows_returns [OF assms(1) this, of 0 E weight eps "Activation E (length x)"]
  show ?thesis
    by (auto simp: rmsNorm_def returned_def Activation_def)
qed

lemma embeddingLookup_length: "length (embeddingLookup E tokens weight d) = length tokens * d"
proof -
  have "length (embeddingLookup E tokens weight d) = length (Activation E (length tokens * d))"
    unfolding embeddingLookup_def
    by (intro fold_length_pres) simp
  then show ?thesis by (simp add: Activation_def)
qed

lemma addInPlace_length: "length (addInPlace E lhs rhs) = length lhs"
  unfolding addInPlace_def by (intro fold_length_pres) simp

lemma bind_err_simps [simp]:
  "bind_err (Inr a) f = f a" "bind_err (Inl e) f = Inl e"
  by (simp_all add: bind_err_def)

lemma rotate_Inr:
  "0 < u32 (nHeads * u32 (2 * length freq)) \<Longrightarrow> \<exists>y. rotate E x freq nHeads = Inr y"
  by (simp add: rotate_def Let_def)

lemma selfAttention_returns:
  "0 < u32 (dKV * dHead) \<Longrightarrow> \<exists>y. selfAttention E q k v dKV dQ dHead = Inr y"
  by (simp add: selfAttention_def Let_def)

lemma attention_Inr:
  assumes "model_ok m" and len: "length x = N * dModel m" and b: "N * dModel m < 2 ^ 32"
  shows "\<exists>y. attention E m layer x = Inr y"
proof -
  from assms(1) have d: "0 < dModel m" and kv: "0 < u32 (dAttnKV m * dAttnHead m)"
    and qd: "0 < u32 (dAttnKV m * dAttnQ m * dAttnHead m)"
    and rq: "0 < u32 (u32 (dAttnKV m * dAttnQ m) * u32 (2 * length (ropeFreq m)))"
    and rk: "0 < u32 (dAttnKV m * u32 (2 * length (ropeFreq m)))"
    by (simp_all add: model_ok_def)
  obtain z where z: "returned (rmsNorm E x (get_bf16 E m (attnNorm layer)) (dModel m) (normEps m)) = Inr z"
    using rmsNorm_returns [OF d len b, of E "get_bf16 E m (attnNorm layer)" "normEps m"] by blast
  obtain q where q: "project E z (get_bf16 E m (attnQ layer)) (dModel m)
      (u32 (dAttnKV m * dAttnQ m * dAttnHead m)) = Inr q"
    using project_Inr [OF d] by blast
  obtain k where k: "project E z (get_bf16 E m (attnK layer)) (dModel m)
      (u32 (dAttnKV m * dAttnHead m)) = Inr k"
    using project_Inr [OF d] by blast
  obtain v where v: "project E z (get_bf16 E m (attnV layer)) (dModel m)
      (u32 (dAttnKV m * dAttnHead m)) = Inr v"
    using project_Inr [OF d] by blast
  obtain q' where q': "rotate E q (ropeFreq m) (u32 (dAttnKV m * dAttnQ m)) = Inr q'"
    using rotate_Inr [OF rq] by blast
  obtain k' where k': "rotate E k (ropeFreq m) (dAttnKV m) = Inr k'"
    using rotate_Inr [OF rk] by blast
  obtain mix where mix: "selfAttention E q' k' v (dAttnKV m) (dAttnQ m) (dAttnHead m) = Inr mix"
    using selfAttention_returns [OF kv] by blast
  obtain y where y: "project E mix (get_bf16 E m (attnO layer))
       (u32 (dAttnKV m * dAttnQ m * dAttnHead m)) (dModel m) = Inr y"
    using project_Inr [OF qd] by blast
  show ?thesis
    by (simp add: attention_def z q k v q' k' mix y)
qed

lemma mlp_Inr:
  assumes "model_ok m" and len: "length x = N * dModel m" and b: "N * dModel m < 2 ^ 32"
  shows "\<exists>y. mlp E m layer x = Inr y"
proof -
  from assms(1) have d: "0 < dModel m" and f: "0 < dFFN m"
    by (simp_all add: model_ok_def)
  obtain z where z: "returned (rmsNorm E x (get_bf16 E m (mlpNorm layer)) (dModel m) (normEps m)) = Inr z"
    using rmsNorm_returns [OF d len b, of E "get_bf16 E m (mlpNorm layer)" "normEps m"] by blast
  obtain up where up: "project E z (get_bf16 E m (mlpUp layer)) (dModel m) (dFFN m) = Inr up"
    using project_Inr [OF d] by blast
  obtain gate where gate: "project E z (get_bf16 E m (mlpGate layer)) (dModel m) (dFFN m) = Inr gate"
    using project_Inr [OF d] by blast
  obtain y where y: "project E (swiGluInPlace E up gate) (get_bf16 E m (mlpDown layer)) (dFFN m) (dModel m) = Inr y"
    using project_Inr [OF f] by blast
  show ?thesis
    by (simp add: mlp_def z up gate y)
qed

lemma layer_step_Inr:
  assumes "model_ok m" and len: "length hidden = N * dModel m" and b: "N * dModel m < 2 ^ 32"
  shows "\<exists>h. layer_step E m layer hidden = Inr h \<and> length h = length hidden"
proof -
  obtain a where a: "attention E m layer hidden = Inr a"
    using attention_Inr [OF assms] by blast
  have "length (addInPlace E hidden a) = N * dModel m"
    by (simp add: addInPlace_length len)
  from mlp_Inr [OF assms(1) this b]
  obtain f where f: "mlp E m layer (addInPlace E hidden a) = Inr f"
    by blast
  show ?thesis
    by (simp add: layer_step_def a f Let_def addInPlace_length)
qed

lemma run_layers_Inr:
  assumes "model_ok m" and b: "N * dModel m < 2 ^ 32"
  shows "length hidden = N * dModel m \<Longrightarrow>
     \<exists>h. run_layers E m ls hidden = Inr h \<and> length h = length hidden"
proof (induction ls arbitrary: hidden)
  case Nil
  then show ?case by simp
next
  case (Cons l ls)
  obtain h1 where h1: "layer_step E m l hidden = Inr h1" "length h1 = length hidden"
    using layer_step_Inr [OF assms(1) Cons.prems b] by blast
  from h1(2) Cons.prems have "length h1 = N * dModel m" by simp
  from Cons.IH [OF this] h1 show ?case by simp
qed

lemma final_hidden_Inr:
  assumes "model_ok m" and b: "length tokens * dModel m < 2 ^ 32"
  shows "\<exists>h. final_hidden E m tokens = Inr h \<and> length h = length tokens * dModel m"
proof -
  from assms(1) have d: "0 < dModel m" by (simp add: model_ok_def)
  have "\<exists>h. run_layers E m (layers m)
          (embeddingLookup E tokens (get_bf16 E m (embedTokens m)) (dModel m)) = Inr h
        \<and> length h = length (embeddingLookup E tokens (get_bf16 E m (embedTokens m)) (dModel m))"
    by (rule run_layers_Inr [OF assms(1) b embeddingLookup_length])
  then obtain h0 where h0: "run_layers E m (layers m)
      (embeddingLookup E tokens (get_bf16 E m (embedTokens m)) (dModel m)) = Inr h0"
    "length h0 = length tokens * dModel m"
    by (auto simp: embeddingLookup_length)
  obtain h where h: "returned (rmsNorm E h0 (get_bf16 E m (finalNorm m)) (dModel m) (normEps m)) = Inr h"
    "length h = length h0"
    using rmsNorm_returns [OF d h0(2) b, of E "get_bf16 E m (finalNorm m)" "normEps m"] by blast
  show ?thesis
    using h0 h by (simp add: final_hidden_def)
qed

section \<open>The configuration\<close>

lemma ropeFreq_loop_eq:
  assumes b: "head_dim c + 1 < 2 ^ 32"
  shows "ropeFreq_loop E c i freqs =
     Some (freqs @ map (\<lambda>j. ropeFreq_entry E c (i + 2 * j)) [0..<(head_dim c - i + 1) div 2])"
proof (induction "head_dim c - i" arbitrary: i freqs rule: less_induct)
  case less
  show ?case
  proof (cases "i < head_dim c")
    case True
    have n: "(head_dim c - i + 1) div 2 = Suc ((head_dim c - (i + 2) + 1) div 2)"
      using True by arith
    have "i + 2 < 2 ^ 32" using True b by simp
    then have u: "u32 (i + 2) = i + 2" by (rule u32_id)
    have "ropeFreq_loop E c i freqs = ropeFreq_loop E c (i + 2) (freqs @ [ropeFreq_entry E c i])"
      using True by (subst ropeFreq_loop.simps) (simp only: u if_True)
    also have "\<dots> = Some ((freqs @ [ropeFreq_entry E c i]) @
        map (\<lambda>j. ropeFreq_entry E c (i + 2 + 2 * j)) [0..<(head_dim c - (i + 2) + 1) div 2])"
      by (rule less) (use True in simp)
    also have "(freqs @ [ropeFreq_entry E c i]) @
        map (\<lambda>j. ropeFreq_entry E c (i + 2 + 2 * j)) [0..<(head_dim c - (i + 2) + 1) div 2]
      = freqs @ map (\<lambda>j. ropeFreq_entry E c (i + 2 * j))
        (0 # map Suc [0..<(head_dim c - (i + 2) + 1) div 2])"
      by (simp add: comp_def)
    also have "0 # map Suc [0..<(head_dim c - (i + 2) + 1) div 2] = [0..<(head_dim c - i + 1) div 2]"
      unfolding n by (simp add: map_Suc_upt upt_conv_Cons del: upt_Suc)
    finally show ?thesis .
  next
    case False
    then show ?thesis by (subst ropeFreq_loop.simps) simp
  qed
qed

lemma ropeFreq_loop_wraps:
  assumes r: "ropeFreq_loop E c i freqs = Some fs"
  shows "\<not> (2 ^ 32 \<le> head_dim c + 1 \<and> even i \<and> i < 2 ^ 32)"
proof (rule ropeFreq_loop.raw_induct
    [where P = "\<lambda>E c i freqs fs. \<not> (2 ^ 32 \<le> head_dim c + 1 \<and> even i \<and> i < 2 ^ 32)", OF _ r])
  fix loop :: "'a env \<Rightarrow> 'a config \<Rightarrow> nat \<Rightarrow> 'a list \<Rightarrow> 'a list option"
  fix E c i freqs fs
  assume IH: "\<And>E c i freqs fs. loop E c i freqs = Some fs \<Longrightarrow>
      \<not> (2 ^ 32 \<le> head_dim c + 1 \<and> even i \<and> i < 2 ^ 32)"
    and step: "(if i < head_dim c then loop E c (u32 (i + 2)) (freqs @ [ropeFreq_entry E c i])
                else Some freqs) = Some fs"
  show "\<not> (2 ^ 32 \<le> head_dim c + 1 \<and> even i \<and> i < 2 ^ 32)"
  proof
    assume a: "2 ^ 32 \<le> head_dim c + 1 \<and> even i \<and> i < 2 ^ 32"
    then have "i \<noteq> 2 ^ 32 - 1" by auto
    with a have lt: "i < head_dim c" by simp
    have e: "even (u32 (i + 2))" using a by (simp add: u32_def dvd_mod_iff)
    have u: "u32 (i + 2) < 2 ^ 32" by (simp add: u32_def)
    from step lt have "loop E c (u32 (i + 2)) (freqs @ [ropeFreq_entry E c i]) = Some fs"
      by (simp only: if_True)
    from IH [OF this] e u a show False by blast
  qed
qed

lemma loadConfig_Inr:
  "loadConfig E c = Inr m \<Longrightarrow> num_key_value_heads c \<noteq> 0 \<and> head_dim c + 1 < 2 ^ 32 \<and>
     m = \<lparr> nLayers = num_hidden_layers c, dVocab = vocab_size c, dModel = hidden_size c,
           dFFN = intermediate_size c, dAttnHead = head_dim c, dAttnKV = num_key_value_heads c,
           dAttnQ = num_attention_heads c div num_key_value_heads c,
           ropeFreq = map (\<lambda>j. ropeFreq_entry E c (2 * j)) [0..<(head_dim c + 1) div 2],
           normEps = rms_norm_eps c,
           embedTokens = indet_ptr E, layers = [], finalNorm = indet_ptr E,
           parameterData = \<lparr> vsize = 0, storage = [] \<rparr> \<rparr>"
proof -
  assume l: "loadConfig E c = Inr m"
  then have kv: "num_key_value_heads c \<noteq> 0"
    by (auto simp: loadConfig_def split: if_splits)
  from l kv obtain fs where fs: "ropeFreq_loop E c 0 [] = Some fs"
    by (cases "ropeFreq_loop E c 0 []") (simp_all add: loadConfig_def returned_def)
  from ropeFreq_loop_wraps [OF fs] have b: "head_dim c + 1 < 2 ^ 32" by simp
  from fs have "fs = map (\<lambda>j. ropeFreq_entry E c (2 * j)) [0..<(head_dim c + 1) div 2]"
    by (simp add: ropeFreq_loop_eq [OF b])
  with l kv fs b show ?thesis
    by (auto simp: loadConfig_def returned_def)
qed

lemma loadConfig_returns:
  "num_key_value_heads c \<noteq> 0 \<Longrightarrow> head_dim c + 1 < 2 ^ 32 \<Longrightarrow> \<exists>m. loadConfig E c = Inr m"
  by (simp add: loadConfig_def returned_def ropeFreq_loop_eq)

text \<open>
  C3, as amended. For every configuration that \<^verbatim>\<open>loadConfig\<close> accepts, the rotary
  frequency table has \<open>(headDim + 1) div 2\<close> entries, which is \<open>headDim / 2\<close> when \<open>headDim\<close> is
  even, and its entry \<open>j\<close> is the formula of the specification at the even index \<open>i = 2 j\<close>:
  \<open>f ((1 - z) / scaleFactor + z)\<close> with \<open>f = theta ^ (- i / headDim)\<close> and \<open>z\<close> the clamp to
  \<open>[0, 1]\<close> of \<open>(originalMaxPositions f / (2 \<pi>) - lowFreqFactor) / (highFreqFactor -
  lowFreqFactor)\<close>, in the arithmetic of the machine.
\<close>

theorem loadConfig_ropeFreq:
  assumes "loadConfig E c = Inr m"
  shows "length (ropeFreq m) = (head_dim c + 1) div 2
     \<and> (even (head_dim c) \<longrightarrow> length (ropeFreq m) = head_dim c div 2)
     \<and> (\<forall>j < (head_dim c + 1) div 2. ropeFreq m ! j =
          (let i = 2 * j;
               f = fpow E (rope_theta c) (fdiv E (fneg E (fofnat E i)) (fofnat E (head_dim c)));
               z = clamp E (fdiv E (fsub E (fdiv E (fmul E (fofnat E (original_max_position_embeddings c)) f)
                                               (fmul E (fofnat E 2) (fpi E)))
                                        (low_freq_factor c))
                               (fsub E (high_freq_factor c) (low_freq_factor c)))
                     (fofnat E 0) (fofnat E 1)
           in fmul E f (fadd E (fdiv E (fsub E (fofnat E 1) z) (rope_factor c)) z)))"
proof -
  have r: "ropeFreq m = map (\<lambda>j. ropeFreq_entry E c (2 * j)) [0..<(head_dim c + 1) div 2]"
    using loadConfig_Inr [OF assms] by simp
  have len: "length (ropeFreq m) = (head_dim c + 1) div 2" by (simp add: r)
  moreover have "even (head_dim c) \<longrightarrow> length (ropeFreq m) = head_dim c div 2"
    using len by auto
  moreover have "ropeFreq m ! j = ropeFreq_entry E c (2 * j)" if "j < (head_dim c + 1) div 2" for j
    using that by (simp add: r)
  ultimately show ?thesis by (simp add: ropeFreq_entry_def Let_def)
qed

theorem loadConfig_ropeFreq_witness:
  "\<exists>m. loadConfig xenv tiny_config = Inr m \<and> length (ropeFreq m) = 1
     \<and> ropeFreq m ! 0 = ropeFreq_entry xenv tiny_config 0"
proof -
  obtain m where m: "loadConfig xenv tiny_config = Inr m"
    using loadConfig_returns [of tiny_config xenv] by (auto simp: tiny_config_def)
  have hd: "head_dim tiny_config = 2" by (simp add: tiny_config_def)
  from loadConfig_ropeFreq [OF m]
  have "length (ropeFreq m) = 1" and "ropeFreq m ! 0 = ropeFreq_entry xenv tiny_config 0"
    by (simp_all add: hd ropeFreq_entry_def Let_def)
  with m show ?thesis by blast
qed

text \<open>
  C3 as stated fails for an odd head dimension: with \<open>headDim = 3\<close> the loop runs for
  \<open>i = 0\<close> and \<open>i = 2\<close> and the table has two entries, not \<open>3 / 2\<close>.
\<close>

theorem loadConfig_ropeFreq_odd_counterexample:
  "\<not> isl (loadConfig xenv (tiny_config\<lparr>head_dim := 3\<rparr>))
   \<and> length (ropeFreq (projr (loadConfig xenv (tiny_config\<lparr>head_dim := 3\<rparr>)))) = 2
   \<and> head_dim (tiny_config\<lparr>head_dim := 3\<rparr>) div 2 = 1"
proof -
  have c: "num_key_value_heads tiny_config = 1"
    by (simp add: tiny_config_def)
  show ?thesis
    by (simp add: loadConfig_def returned_def c ropeFreq_loop_eq)
qed

lemma bind_err_Inr_iff:
  "bind_err r f = Inr b \<longleftrightarrow> (\<exists>a. r = Inr a \<and> f a = Inr b)"
  by (cases r) simp_all

lemma bind_err_Inl_iff:
  "bind_err r f = Inl e \<longleftrightarrow> r = Inl e \<or> (\<exists>a. r = Inr a \<and> f a = Inl e)"
  by (cases r) simp_all

lemma loadParameters_Inr:
  assumes "loadParameters E m file = Inr m'"
  shows "\<exists>maxOffset reserved embed ls norm.
     max_offset (erase ''__metadata__'' (header file)) 0 = Inr maxOffset
     \<and> reserve E maxOffset (parameterData m) = Inr reserved
     \<and> load (erase ''__metadata__'' (header file)) ''embed_tokens'' = Inr embed
     \<and> load_layers (erase ''__metadata__'' (header file)) [0..<nLayers m] (layers m) = Inr ls
     \<and> load (erase ''__metadata__'' (header file)) ''norm'' = Inr norm
     \<and> m' = m\<lparr>parameterData := reserved
                  \<lparr>storage := fst (read_chunks maxOffset 0 (region file) (storage reserved))\<rparr>,
               embedTokens := embed, layers := ls, finalNorm := norm\<rparr>"
  using assms
  by (simp add: loadParameters_def Let_def case_prod_beta bind_err_Inr_iff) blast

lemma reserve_Inr:
  "(\<exists>r. reserve E n v = Inr r) \<longleftrightarrow> n \<le> max_size E \<and> (length (storage v) < n \<longrightarrow> allocates E n)"
  by (auto simp: reserve_def)

lemma reserve_Inl:
  "reserve E n v = Inl e \<Longrightarrow> e = LengthError \<or> e = BadAlloc"
  by (auto simp: reserve_def split: if_splits)

lemma loadParameters_frame:
  assumes "loadParameters E m file = Inr m'"
  shows "nLayers m' = nLayers m \<and> dVocab m' = dVocab m \<and> dModel m' = dModel m
     \<and> dFFN m' = dFFN m \<and> dAttnHead m' = dAttnHead m \<and> dAttnKV m' = dAttnKV m
     \<and> dAttnQ m' = dAttnQ m \<and> ropeFreq m' = ropeFreq m \<and> normEps m' = normEps m"
  using loadParameters_Inr [OF assms] by auto

text \<open>
  C6, as amended. For every configuration that \<^verbatim>\<open>loadConfig\<close> accepts, \<open>dAttnKV\<close> is
  \<open>num_key_value_heads\<close> and \<open>dAttnQ\<close> is the truncated quotient of \<open>num_attention_heads\<close> by
  it; so \<open>dAttnKV * dAttnQ\<close> is at most \<open>num_attention_heads\<close>, and equal to it exactly when
  \<open>num_key_value_heads\<close> divides \<open>num_attention_heads\<close>. \<^verbatim>\<open>loadParameters\<close>, the only
  operation that changes a model, leaves both unchanged.
\<close>

theorem loadConfig_grouped_query:
  assumes "loadConfig E c = Inr m"
  shows "dAttnKV m = num_key_value_heads c
     \<and> dAttnQ m = num_attention_heads c div num_key_value_heads c
     \<and> dAttnKV m * dAttnQ m \<le> num_attention_heads c
     \<and> (num_attention_heads c = dAttnKV m * dAttnQ m
          \<longleftrightarrow> num_key_value_heads c dvd num_attention_heads c)
     \<and> (\<forall>file m'. loadParameters E m file = Inr m'
          \<longrightarrow> dAttnKV m' = dAttnKV m \<and> dAttnQ m' = dAttnQ m)"
proof -
  from loadConfig_Inr [OF assms]
  have kv: "dAttnKV m = num_key_value_heads c"
    and q: "dAttnQ m = num_attention_heads c div num_key_value_heads c"
    by simp_all
  have le: "dAttnKV m * dAttnQ m \<le> num_attention_heads c"
    unfolding kv q by simp
  have iff: "num_attention_heads c = dAttnKV m * dAttnQ m
      \<longleftrightarrow> num_key_value_heads c dvd num_attention_heads c"
    unfolding kv q by (metis dvd_mult_div_cancel dvd_triv_left)
  show ?thesis
    using kv q le iff loadParameters_frame by blast
qed

theorem loadConfig_grouped_query_witness:
  "\<exists>m. loadConfig xenv (tiny_config\<lparr>num_key_value_heads := 2, num_attention_heads := 6\<rparr>) = Inr m
     \<and> dAttnKV m = 2 \<and> dAttnQ m = 3 \<and> dAttnKV m * dAttnQ m = 6"
proof -
  let ?c = "tiny_config\<lparr>num_key_value_heads := 2, num_attention_heads := 6\<rparr>"
  obtain m where m: "loadConfig xenv ?c = Inr m"
    using loadConfig_returns [of ?c xenv] by (auto simp: tiny_config_def)
  from loadConfig_grouped_query [OF m]
  have "dAttnKV m = 2 \<and> dAttnQ m = 3 \<and> dAttnKV m * dAttnQ m = 6" by simp
  with m show ?thesis by blast
qed

text \<open>
  C6 as stated fails when the division leaves a remainder: 5 attention heads over 2
  key/value heads are accepted, with \<open>dAttnQ = 2\<close> and \<open>dAttnKV * dAttnQ = 4\<close>.
\<close>

theorem loadConfig_grouped_query_counterexample:
  "\<not> isl (loadConfig xenv (tiny_config\<lparr>num_key_value_heads := 2, num_attention_heads := 5\<rparr>))
   \<and> dAttnKV (projr (loadConfig xenv
         (tiny_config\<lparr>num_key_value_heads := 2, num_attention_heads := 5\<rparr>))) = 2
   \<and> dAttnQ (projr (loadConfig xenv
         (tiny_config\<lparr>num_key_value_heads := 2, num_attention_heads := 5\<rparr>))) = 2
   \<and> num_attention_heads (tiny_config\<lparr>num_key_value_heads := 2, num_attention_heads := 5\<rparr>) = 5"
proof -
  have "head_dim (tiny_config\<lparr>num_key_value_heads := 2, num_attention_heads := 5\<rparr>) + 1 < 2 ^ 32"
    by (simp add: tiny_config_def)
  from ropeFreq_loop_eq [OF this, of xenv 0 "[]"] show ?thesis
    by (simp add: loadConfig_def returned_def)
qed

section \<open>Loading the parameters\<close>

lemma max_offset_Inr:
  "(\<exists>mo. max_offset hdr a = Inr mo) \<longleftrightarrow> (\<forall>k dt s. (k, Member dt s None) \<notin> set hdr)"
  by (induction hdr a rule: max_offset.induct) auto

lemma max_offset_Inl:
  "max_offset hdr a = Inl e \<Longrightarrow> e = JsonTypeError"
  by (induction hdr a rule: max_offset.induct) auto

lemma max_offset_wf:
  "list_all (\<lambda>(k, v). is_tensor v) hdr \<Longrightarrow> \<exists>mo. max_offset hdr a = Inr mo"
  unfolding max_offset_Inr by (auto simp: list_all_iff)

lemma load_wf:
  assumes "list_all (\<lambda>(k, v). is_tensor v) hdr"
    and "map_of hdr (''model.'' @ name @ ''.weight'') \<noteq> None"
  shows "\<exists>dt s e. map_of hdr (''model.'' @ name @ ''.weight'') = Some (Tensor dt s e)
           \<and> load hdr name = (if dt \<noteq> ''BF16'' then Inl (InvalidArgument ''Non-BF16 data'') else Inr s)"
proof -
  obtain v where v: "map_of hdr (''model.'' @ name @ ''.weight'') = Some v"
    using assms(2) by blast
  then have "(''model.'' @ name @ ''.weight'', v) \<in> set hdr" by (rule map_of_SomeD)
  then have "is_tensor v" using assms(1) by (auto simp: list_all_iff)
  then obtain dt s e where "v = Tensor dt s e" by (cases v) auto
  with v show ?thesis by (simp add: load_def)
qed

lemma load_layer_Inl:
  "load_layer hdr idx = Inl e \<Longrightarrow> \<exists>name\<in>set (layer_names idx). load hdr name = Inl e"
  by (auto simp: load_layer_def layer_names_def Let_def bind_err_def split: sum.splits)

lemma load_layer_Inr:
  "(\<exists>l. load_layer hdr idx = Inr l) \<longleftrightarrow> (\<forall>name\<in>set (layer_names idx). \<exists>s. load hdr name = Inr s)"
  by (auto simp: load_layer_def layer_names_def Let_def bind_err_def split: sum.splits)

lemma load_layers_Inl:
  "load_layers hdr idxs ls = Inl e \<Longrightarrow> \<exists>idx\<in>set idxs. load_layer hdr idx = Inl e"
  by (induction idxs arbitrary: ls) (auto simp: bind_err_Inl_iff)

lemma load_layers_Inr:
  "(\<exists>ls'. load_layers hdr idxs ls = Inr ls') \<longleftrightarrow> (\<forall>idx\<in>set idxs. \<exists>l. load_layer hdr idx = Inr l)"
proof (induction idxs arbitrary: ls)
  case Nil
  then show ?case by simp
next
  case (Cons idx idxs)
  show ?case
  proof (cases "load_layer hdr idx")
    case (Inl e)
    then show ?thesis by simp
  next
    case (Inr l)
    then show ?thesis using Cons [of "ls @ [l]"] by simp
  qed
qed

lemma required_names_set:
  "set (required_names n) =
     {''embed_tokens'', ''norm''} \<union> (\<Union>idx\<in>{..<n}. set (layer_names idx))"
  by (auto simp: required_names_def)

lemma loadParameters_Inl:
  assumes "loadParameters E m file = Inl e"
  shows "max_offset (erase ''__metadata__'' (header file)) 0 = Inl e
     \<or> (\<exists>mo. max_offset (erase ''__metadata__'' (header file)) 0 = Inr mo
            \<and> reserve E mo (parameterData m) = Inl e)
     \<or> (\<exists>name\<in>set (required_names (nLayers m)).
           load (erase ''__metadata__'' (header file)) name = Inl e)"
proof -
  let ?hdr = "erase ''__metadata__'' (header file)"
  from assms consider
      "max_offset ?hdr 0 = Inl e"
    | mo where "max_offset ?hdr 0 = Inr mo" "reserve E mo (parameterData m) = Inl e"
    | "load ?hdr ''embed_tokens'' = Inl e"
    | "load_layers ?hdr [0..<nLayers m] (layers m) = Inl e"
    | "load ?hdr ''norm'' = Inl e"
    by (auto simp: loadParameters_def Let_def case_prod_beta bind_err_Inl_iff)
  then show ?thesis
  proof cases
    case 1
    then show ?thesis by simp
  next
    case 2
    then show ?thesis by blast
  next
    case 3
    then show ?thesis by (auto simp: required_names_set)
  next
    case 4
    from load_layers_Inl [OF this] obtain idx where "idx < nLayers m" "load_layer ?hdr idx = Inl e"
      by auto
    with load_layer_Inl [of ?hdr idx e] show ?thesis
      by (auto simp: required_names_set)
  next
    case 5
    then show ?thesis by (auto simp: required_names_set)
  qed
qed

lemma loadParameters_returns:
  assumes "\<exists>mo r. max_offset (erase ''__metadata__'' (header file)) 0 = Inr mo
             \<and> reserve E mo (parameterData m) = Inr r"
    and "\<forall>name\<in>set (required_names (nLayers m)).
           \<exists>s. load (erase ''__metadata__'' (header file)) name = Inr s"
  shows "\<exists>m'. loadParameters E m file = Inr m'"
proof -
  let ?hdr = "erase ''__metadata__'' (header file)"
  obtain mo r where mo: "max_offset ?hdr 0 = Inr mo" "reserve E mo (parameterData m) = Inr r"
    using assms(1) by blast
  obtain embed where embed: "load ?hdr ''embed_tokens'' = Inr embed"
    using assms(2) by (auto simp: required_names_set)
  obtain norm where norm: "load ?hdr ''norm'' = Inr norm"
    using assms(2) by (auto simp: required_names_set)
  have "\<forall>idx\<in>set [0..<nLayers m]. \<exists>l. load_layer ?hdr idx = Inr l"
    using assms(2) by (auto simp: load_layer_Inr required_names_set)
  then obtain ls where ls: "load_layers ?hdr [0..<nLayers m] (layers m) = Inr ls"
    using load_layers_Inr [of ?hdr "[0..<nLayers m]" "layers m"] by blast
  show ?thesis
    by (simp add: loadParameters_def Let_def case_prod_beta mo embed norm ls)
qed

text \<open>
  C5, as amended. On a header in which every member is a tensor entry and every required
  tensor is present, and whose maximal end offset the vector can reserve (it is at most
  \<^verbatim>\<open>max_size()\<close> and the allocator grants it), \<^verbatim>\<open>loadParameters\<close> fails if and only if the
  entry of some required tensor has a dtype other than \<^verbatim>\<open>"BF16"\<close>. A failure is the
  \<^verbatim>\<open>std::invalid_argument\<close> with the message \<^verbatim>\<open>Non-BF16 data\<close>, no model is returned, and
  \<^verbatim>\<open>main\<close> ends with that failure before any call of \<^verbatim>\<open>predict\<close>, whatever its input lines.
\<close>

theorem loadParameters_fails_iff_non_BF16:
  assumes wf: "well_formed_header (erase ''__metadata__'' (header file)) (nLayers model)"
    and res: "\<forall>mo. max_offset (erase ''__metadata__'' (header file)) 0 = Inr mo
                \<longrightarrow> mo \<le> max_size E \<and> allocates E mo"
  shows "((\<exists>e. loadParameters E model file = Inl e) \<longleftrightarrow>
          (\<exists>name\<in>set (required_names (nLayers model)). \<exists>dt s e.
             map_of (erase ''__metadata__'' (header file)) (''model.'' @ name @ ''.weight'')
               = Some (Tensor dt s e) \<and> dt \<noteq> ''BF16''))
     \<and> (\<forall>e. loadParameters E model file = Inl e \<longrightarrow> e = InvalidArgument ''Non-BF16 data'')
     \<and> (\<forall>e cfg lines. loadConfig E cfg = Inr model \<longrightarrow> loadParameters E model file = Inl e
           \<longrightarrow> main E cfg file lines = Inl e)"
proof -
  let ?hdr = "erase ''__metadata__'' (header file)"
  let ?bad = "\<exists>name\<in>set (required_names (nLayers model)). \<exists>dt s e.
             map_of ?hdr (''model.'' @ name @ ''.weight'') = Some (Tensor dt s e) \<and> dt \<noteq> ''BF16''"
  from wf have t: "list_all (\<lambda>(k, v). is_tensor v) ?hdr"
    and pres: "\<And>name. name \<in> set (required_names (nLayers model)) \<Longrightarrow>
                 map_of ?hdr (''model.'' @ name @ ''.weight'') \<noteq> None"
    by (simp_all add: well_formed_header_def list_all_iff)
  obtain mo where mo: "max_offset ?hdr 0 = Inr mo"
    using max_offset_wf [OF t] by blast
  with res have "mo \<le> max_size E \<and> allocates E mo" by blast
  then obtain r where r: "reserve E mo (parameterData model) = Inr r"
    using reserve_Inr [of E mo "parameterData model"] by blast
  have fail: "e = InvalidArgument ''Non-BF16 data'' \<and> ?bad" if "loadParameters E model file = Inl e" for e
  proof -
    from loadParameters_Inl [OF that] mo r obtain name
      where n: "name \<in> set (required_names (nLayers model))" "load ?hdr name = Inl e"
      by auto
    from load_wf [OF t pres [OF n(1)]] n show ?thesis
      by (auto split: if_splits)
  qed
  have ok: "\<exists>e. loadParameters E model file = Inl e" if ?bad
  proof (rule ccontr)
    assume "\<not> (\<exists>e. loadParameters E model file = Inl e)"
    then obtain m' where m': "loadParameters E model file = Inr m'"
      by (cases "loadParameters E model file") auto
    from that obtain name dt s e where n: "name \<in> set (required_names (nLayers model))"
      "map_of ?hdr (''model.'' @ name @ ''.weight'') = Some (Tensor dt s e)" "dt \<noteq> ''BF16''"
      by blast
    then have l: "load ?hdr name = Inl (InvalidArgument ''Non-BF16 data'')"
      by (simp add: load_def)
    from loadParameters_Inr [OF m'] obtain embed ls norm where
      e: "load ?hdr ''embed_tokens'' = Inr embed"
      and ls: "load_layers ?hdr [0..<nLayers model] (layers model) = Inr ls"
      and no: "load ?hdr ''norm'' = Inr norm"
      by blast
    from ls have "\<forall>idx\<in>set [0..<nLayers model]. \<forall>name\<in>set (layer_names idx). \<exists>s. load ?hdr name = Inr s"
      using load_layers_Inr [of ?hdr "[0..<nLayers model]" "layers model"] load_layer_Inr [of ?hdr]
      by blast
    with e no n(1) have "\<exists>s. load ?hdr name = Inr s"
      by (auto simp: required_names_set)
    with l show False by simp
  qed
  have drv: "main E cfg file lines = Inl e"
    if "loadConfig E cfg = Inr model" "loadParameters E model file = Inl e" for e cfg lines
    using that by (simp add: main_def)
  show ?thesis using fail ok drv by blast
qed

lemma tiny_model:
  "\<exists>m. loadConfig xenv tiny_config = Inr m \<and> nLayers m = 0 \<and> layers m = []
     \<and> parameterData m = \<lparr> vsize = 0, storage = [] \<rparr> \<and> dModel m = 1 \<and> dVocab m = 2
     \<and> dFFN m = 1 \<and> dAttnHead m = 2 \<and> dAttnKV m = 1 \<and> dAttnQ m = 1
     \<and> length (ropeFreq m) = 1 \<and> normEps m = Fin 0"
  by (simp add: loadConfig_def returned_def tiny_config_def ropeFreq_loop_eq)

lemma required_names_0: "required_names 0 = [''embed_tokens'', ''norm'']"
  by (simp add: required_names_def)

theorem loadParameters_fails_iff_non_BF16_witness:
  "\<exists>m. loadConfig xenv tiny_config = Inr m
     \<and> loadParameters xenv m
          (tiny_file\<lparr>header := [(''model.embed_tokens.weight'', Tensor ''BF16'' 0 4),
                                 (''model.norm.weight'', Tensor ''F32'' 4 8)]\<rparr>)
         = Inl (InvalidArgument ''Non-BF16 data'')
     \<and> main xenv tiny_config
          (tiny_file\<lparr>header := [(''model.embed_tokens.weight'', Tensor ''BF16'' 0 4),
                                 (''model.norm.weight'', Tensor ''F32'' 4 8)]\<rparr>) [[0]]
         = Inl (InvalidArgument ''Non-BF16 data'')"
proof -
  let ?file = "tiny_file\<lparr>header := [(''model.embed_tokens.weight'', Tensor ''BF16'' 0 4),
                                 (''model.norm.weight'', Tensor ''F32'' 4 8)]\<rparr>"
  obtain m where m: "loadConfig xenv tiny_config = Inr m" "nLayers m = 0"
    using tiny_model by blast
  have wf: "well_formed_header (erase ''__metadata__'' (header ?file)) (nLayers m)"
    by (simp add: well_formed_header_def erase_def m(2) required_names_0)
  have res: "\<forall>mo. max_offset (erase ''__metadata__'' (header ?file)) 0 = Inr mo
                \<longrightarrow> mo \<le> max_size xenv \<and> allocates xenv mo"
    by (simp add: erase_def)
  have bad: "\<exists>name\<in>set (required_names (nLayers m)). \<exists>dt s e.
             map_of (erase ''__metadata__'' (header ?file)) (''model.'' @ name @ ''.weight'')
               = Some (Tensor dt s e) \<and> dt \<noteq> ''BF16''"
    by (simp add: erase_def m(2) required_names_0)
  from loadParameters_fails_iff_non_BF16 [OF wf res] bad m(1)
  have "loadParameters xenv m ?file = Inl (InvalidArgument ''Non-BF16 data'')"
    and "main xenv tiny_config ?file [[0]] = Inl (InvalidArgument ''Non-BF16 data'')"
    by blast+
  with m(1) show ?thesis by blast
qed

text \<open>
  C5 as stated fails in the direction "only if": a header without the entry of
  \<^verbatim>\<open>model.norm.weight\<close> makes \<^verbatim>\<open>loadParameters\<close> fail (the JSON library throws when the
  missing entry's dtype is read), although no entry has a dtype other than \<^verbatim>\<open>"BF16"\<close>: of
  the two required tensors, one has dtype \<^verbatim>\<open>"BF16"\<close> and the other has no entry.
\<close>

theorem loadParameters_missing_tensor_counterexample:
  "loadParameters xenv (projr (loadConfig xenv tiny_config))
       (tiny_file\<lparr>header := [(''model.embed_tokens.weight'', Tensor ''BF16'' 0 4)]\<rparr>)
     = Inl JsonTypeError
   \<and> required_names (nLayers (projr (loadConfig xenv tiny_config))) = [''embed_tokens'', ''norm'']
   \<and> map_of (erase ''__metadata__''
         (header (tiny_file\<lparr>header := [(''model.embed_tokens.weight'', Tensor ''BF16'' 0 4)]\<rparr>)))
       ''model.embed_tokens.weight'' = Some (Tensor ''BF16'' 0 4)
   \<and> map_of (erase ''__metadata__''
         (header (tiny_file\<lparr>header := [(''model.embed_tokens.weight'', Tensor ''BF16'' 0 4)]\<rparr>)))
       ''model.norm.weight'' = None"
proof -
  obtain m where m: "loadConfig xenv tiny_config = Inr m" "nLayers m = 0" "layers m = []"
    "parameterData m = \<lparr> vsize = 0, storage = [] \<rparr>"
    using tiny_model by blast
  have "loadParameters xenv m
          (tiny_file\<lparr>header := [(''model.embed_tokens.weight'', Tensor ''BF16'' 0 4)]\<rparr>)
         = Inl JsonTypeError"
    by (simp add: loadParameters_def reserve_def Let_def case_prod_beta erase_def load_def m(2,3,4))
  then show ?thesis
    by (simp add: m(1,2) required_names_0 erase_def)
qed

lemma load_Inr_iff:
  "(\<exists>s. load hdr name = Inr s) \<longleftrightarrow>
   (\<exists>s e. map_of hdr (''model.'' @ name @ ''.weight'') = Some (Member (Some ''BF16'') (Some s) e))"
  by (auto simp: load_def split: option.splits header_value.splits if_splits)

lemma loadParameters_Inr_iff:
  "(\<exists>m'. loadParameters E m file = Inr m') \<longleftrightarrow>
     (\<exists>mo r. max_offset (erase ''__metadata__'' (header file)) 0 = Inr mo
        \<and> reserve E mo (parameterData m) = Inr r)
     \<and> (\<forall>name\<in>set (required_names (nLayers m)).
           \<exists>s. load (erase ''__metadata__'' (header file)) name = Inr s)"
proof
  assume "\<exists>m'. loadParameters E m file = Inr m'"
  then obtain m' where m': "loadParameters E m file = Inr m'" ..
  let ?hdr = "erase ''__metadata__'' (header file)"
  from loadParameters_Inr [OF m'] obtain mo r embed ls norm where
      mo: "max_offset ?hdr 0 = Inr mo" "reserve E mo (parameterData m) = Inr r"
      and e: "load ?hdr ''embed_tokens'' = Inr embed"
      and ls: "load_layers ?hdr [0..<nLayers m] (layers m) = Inr ls"
      and no: "load ?hdr ''norm'' = Inr norm"
    by blast
  from ls have "\<forall>idx\<in>set [0..<nLayers m]. \<forall>name\<in>set (layer_names idx). \<exists>s. load ?hdr name = Inr s"
    using load_layers_Inr [of ?hdr "[0..<nLayers m]" "layers m"] load_layer_Inr [of ?hdr]
    by blast
  with e no have "\<forall>name\<in>set (required_names (nLayers m)). \<exists>s. load ?hdr name = Inr s"
    by (auto simp: required_names_set)
  with mo show "(\<exists>mo r. max_offset ?hdr 0 = Inr mo \<and> reserve E mo (parameterData m) = Inr r)
     \<and> (\<forall>name\<in>set (required_names (nLayers m)). \<exists>s. load ?hdr name = Inr s)"
    by blast
next
  assume a: "(\<exists>mo r. max_offset (erase ''__metadata__'' (header file)) 0 = Inr mo
        \<and> reserve E mo (parameterData m) = Inr r)
     \<and> (\<forall>name\<in>set (required_names (nLayers m)).
           \<exists>s. load (erase ''__metadata__'' (header file)) name = Inr s)"
  show "\<exists>m'. loadParameters E m file = Inr m'"
    by (rule loadParameters_returns [OF conjunct1 [OF a] conjunct2 [OF a]])
qed

text \<open>
  All the ways \<^verbatim>\<open>loadParameters\<close> fails, on any header: some member left after the removal
  of \<^verbatim>\<open>__metadata__\<close> has no readable end offset (the loop at lines 162 to 164 throws), or
  the maximal end offset cannot be reserved, or some required tensor has no entry with
  dtype \<^verbatim>\<open>"BF16"\<close> and a readable start offset (\<^verbatim>\<open>load\<close> throws: the entry is missing, its
  dtype or its start offset cannot be read, or its dtype is another string).
\<close>

theorem loadParameters_failure_cases:
  "(\<exists>e. loadParameters E model file = Inl e) \<longleftrightarrow>
     (\<exists>k dt s. (k, Member dt s None) \<in> set (erase ''__metadata__'' (header file)))
     \<or> (\<exists>mo. max_offset (erase ''__metadata__'' (header file)) 0 = Inr mo
           \<and> (max_size E < mo \<or> length (storage (parameterData model)) < mo \<and> \<not> allocates E mo))
     \<or> (\<exists>name\<in>set (required_names (nLayers model)).
           \<forall>s e. map_of (erase ''__metadata__'' (header file)) (''model.'' @ name @ ''.weight'')
                  \<noteq> Some (Member (Some ''BF16'') (Some s) e))"
proof -
  let ?hdr = "erase ''__metadata__'' (header file)"
  have 1: "(\<exists>e. loadParameters E model file = Inl e) \<longleftrightarrow> \<not> (\<exists>m'. loadParameters E model file = Inr m')"
    by (cases "loadParameters E model file") auto
  have 2: "(\<exists>mo r. max_offset ?hdr 0 = Inr mo \<and> reserve E mo (parameterData model) = Inr r)
      \<longleftrightarrow> \<not> (\<exists>k dt s. (k, Member dt s None) \<in> set ?hdr)
          \<and> \<not> (\<exists>mo. max_offset ?hdr 0 = Inr mo
                \<and> (max_size E < mo \<or> length (storage (parameterData model)) < mo \<and> \<not> allocates E mo))"
  proof (cases "max_offset ?hdr 0")
    case (Inl e)
    then have "\<not> (\<exists>mo. max_offset ?hdr 0 = Inr mo)" by simp
    then have "\<exists>k dt s. (k, Member dt s None) \<in> set ?hdr"
      using max_offset_Inr [of ?hdr 0] by blast
    with Inl show ?thesis by simp
  next
    case (Inr mo)
    then have "\<not> (\<exists>k dt s. (k, Member dt s None) \<in> set ?hdr)"
      using max_offset_Inr [of ?hdr 0] by blast
    moreover have "(\<exists>r. reserve E mo (parameterData model) = Inr r)
        \<longleftrightarrow> \<not> (max_size E < mo \<or> length (storage (parameterData model)) < mo \<and> \<not> allocates E mo)"
      by (auto simp: reserve_Inr)
    ultimately show ?thesis using Inr by simp
  qed
  show ?thesis
    unfolding 1 loadParameters_Inr_iff 2 load_Inr_iff by blast
qed

theorem loadParameters_failure_cases_witness:
  "\<exists>m. loadConfig xenv tiny_config = Inr m
     \<and> (\<exists>m'. loadParameters xenv m tiny_file = Inr m')
     \<and> (\<exists>e. loadParameters xenv m
          (tiny_file\<lparr>header := [(''model.embed_tokens.weight'', Tensor ''BF16'' 0 4),
                                 (''model.norm.weight'', Member (Some ''BF16'') None (Some 6))]\<rparr>) = Inl e)"
proof -
  let ?file = "tiny_file\<lparr>header := [(''model.embed_tokens.weight'', Tensor ''BF16'' 0 4),
                                 (''model.norm.weight'', Member (Some ''BF16'') None (Some 6))]\<rparr>"
  obtain m where m: "loadConfig xenv tiny_config = Inr m" "nLayers m = 0"
    using tiny_model by blast
  have "\<not> (\<exists>e. loadParameters xenv m tiny_file = Inl e)"
    unfolding loadParameters_failure_cases
    by (simp add: tiny_file_def erase_def m(2) required_names_0)
  then have ok: "\<exists>m'. loadParameters xenv m tiny_file = Inr m'"
    by (cases "loadParameters xenv m tiny_file") auto
  have bad: "\<exists>e. loadParameters xenv m ?file = Inl e"
    unfolding loadParameters_failure_cases
    by (simp add: erase_def m(2) required_names_0)
  from m(1) ok bad show ?thesis by blast
qed

lemma write_bytes_eq:
  "i + length bs \<le> length buf \<Longrightarrow>
   write_bytes buf i bs = take i buf @ bs @ drop (i + length bs) buf"
proof (induction bs rule: rev_induct)
  case Nil
  then show ?case by (simp add: write_bytes_def)
next
  case (snoc b bs)
  then have le: "i + length bs < length buf" by simp
  have "fold (\<lambda>j x. x[i + j := (bs @ [b]) ! j]) [0..<length bs] buf
        = fold (\<lambda>j x. x[i + j := bs ! j]) [0..<length bs] buf"
    by (intro fold_cong refl) (simp add: nth_append)
  then have "write_bytes buf i (bs @ [b]) = (write_bytes buf i bs)[i + length bs := b]"
    by (simp add: write_bytes_def)
  also have "write_bytes buf i bs = take i buf @ bs @ drop (i + length bs) buf"
    using snoc by simp
  also have "(take i buf @ bs @ drop (i + length bs) buf)[i + length bs := b]
             = take i buf @ bs @ (drop (i + length bs) buf)[0 := b]"
    using le by (simp add: list_update_append)
  also have "(drop (i + length bs) buf)[0 := b] = b # drop (Suc (i + length bs)) buf"
    using le by (metis Cons_nth_drop_Suc list_update_code(2))
  finally show ?case by simp
qed

lemma read_chunks_eq:
  "length buf = maxOffset \<Longrightarrow> maxOffset - i \<le> length src \<Longrightarrow>
   read_chunks maxOffset i src buf =
     (if i < maxOffset then (take i buf @ take (maxOffset - i) src, drop (maxOffset - i) src)
      else (buf, src))"
proof (induction maxOffset i src buf rule: read_chunks.induct)
  case (1 maxOffset i src buf)
  show ?case
  proof (cases "i < maxOffset")
    case False
    then show ?thesis by (subst read_chunks.simps) simp
  next
    case True
    define n where "n = min chunkSize (maxOffset - i)"
    define buf' where "buf' = write_bytes buf i (take n src)"
    have n: "n \<le> maxOffset - i" "n \<le> length src" "length (take n src) = n"
      using "1.prems" by (simp_all add: n_def)
    have buf': "buf' = take i buf @ take n src @ drop (i + n) buf"
      unfolding buf'_def using n True "1.prems"(1) by (subst write_bytes_eq) simp_all
    then have len: "length buf' = maxOffset"
      using n True "1.prems"(1) by simp
    have step: "read_chunks maxOffset i src buf
                = read_chunks maxOffset (i + chunkSize) (drop n src) buf'"
      using True by (subst read_chunks.simps) (simp add: n_def buf'_def Let_def)
    have IH: "read_chunks maxOffset (i + chunkSize) (drop n src) buf' =
       (if i + chunkSize < maxOffset
        then (take (i + chunkSize) buf' @ take (maxOffset - (i + chunkSize)) (drop n src),
              drop (maxOffset - (i + chunkSize)) (drop n src))
        else (buf', drop n src))"
      using "1.IH" [OF True n_def, folded buf'_def] len "1.prems"(2) n
      by (simp add: n_def)
    show ?thesis
    proof (cases "i + chunkSize < maxOffset")
      case more: True
      then have nc: "n = chunkSize" by (simp add: n_def)
      have li: "length (take i buf) = i" using True "1.prems"(1) by simp
      have lc: "length (take chunkSize src) = chunkSize" using n(3) by (simp only: nc)
      have "take (i + chunkSize) buf' = take i buf @ take chunkSize src"
        unfolding buf' nc by (simp add: li lc del: length_take)
      moreover have split: "maxOffset - i = chunkSize + (maxOffset - (i + chunkSize))"
        using more by arith
      have "take chunkSize src @ take (maxOffset - (i + chunkSize)) (drop chunkSize src)
                     = take (maxOffset - i) src"
        by (subst split) (simp only: take_add)
      moreover have "drop (maxOffset - (i + chunkSize)) (drop chunkSize src) = drop (maxOffset - i) src"
        by (subst split) (simp add: add.commute)
      ultimately show ?thesis
        using True more by (simp add: step IH [unfolded nc] nc)
    next
      case last: False
      then have nl: "n = maxOffset - i" using True by (simp add: n_def)
      have b: "buf' = take i buf @ take (maxOffset - i) src"
        using True "1.prems"(1) by (simp add: buf' nl)
      have "read_chunks maxOffset i src buf = (buf', drop n src)"
        using last by (simp only: step IH if_False)
      then show ?thesis
        using True by (simp only: b nl if_True)
    qed
  qed
qed

lemma max_offset_mono: "max_offset hdr a = Inr mo \<Longrightarrow> a \<le> mo"
  by (induction hdr a rule: max_offset.induct) (auto simp: max_def split: if_splits)

lemma max_offset_ge:
  "max_offset hdr a = Inr mo \<Longrightarrow> (k, Member dt start (Some fin)) \<in> set hdr \<Longrightarrow> fin \<le> mo"
proof (induction hdr a rule: max_offset.induct)
  case (1 maxOffset)
  then show ?case by simp
next
  case (2 k' dt' start' fin' es maxOffset)
  from "2.prems"(2) consider "fin = fin'" | "(k, Member dt start (Some fin)) \<in> set es" by auto
  then show ?case
  proof cases
    case 1
    from max_offset_mono [of es "max maxOffset fin'" mo] "2.prems"(1) have "max maxOffset fin' \<le> mo"
      by simp
    with 1 show ?thesis by simp
  next
    case 2
    with "2.IH" "2.prems"(1) show ?thesis by simp
  qed
next
  case (3 k' dt' start' es maxOffset)
  then show ?case by simp
qed

lemma loadParameters_storage:
  assumes l: "loadParameters E m file = Inr m'"
    and fresh: "parameterData m = \<lparr> vsize = 0, storage = [] \<rparr>"
    and mo: "max_offset (erase ''__metadata__'' (header file)) 0 = Inr maxOffset"
    and enough: "maxOffset \<le> length (region file)"
  shows "storage (parameterData m') = take maxOffset (region file)"
    and "vsize (parameterData m') = 0"
proof -
  from loadParameters_Inr [OF l] mo obtain r where r: "reserve E maxOffset (parameterData m) = Inr r"
    and pd: "parameterData m' = r\<lparr>storage := fst (read_chunks maxOffset 0 (region file) (storage r))\<rparr>"
    by auto
  from r have len: "length (storage r) = maxOffset" and vs: "vsize r = 0"
    by (auto simp: reserve_def fresh split: if_splits)
  have "fst (read_chunks maxOffset 0 (region file) (storage r)) = take maxOffset (region file)"
    using read_chunks_eq [of "storage r" maxOffset 0 "region file"] len enough by auto
  then show "storage (parameterData m') = take maxOffset (region file)"
    by (simp add: pd)
  show "vsize (parameterData m') = 0" by (simp add: pd vs)
qed

text \<open>
  C2, on the smallest container. After \<^verbatim>\<open>loadParameters\<close> returns, the allocation of
  \<^verbatim>\<open>_parameterData\<close> holds the six bytes of the tensor region (the maximal end offset is
  6), but the vector's \<^verbatim>\<open>size()\<close> is still 0: the source calls \<^verbatim>\<open>reserve\<close>, which does
  not change the size, and stores through \<^verbatim>\<open>data()\<close> beyond it.
\<close>

theorem loadParameters_reserves_without_resizing:
  "\<exists>m m'. loadConfig xenv tiny_config = Inr m \<and> loadParameters xenv m tiny_file = Inr m'
     \<and> max_offset (erase ''__metadata__'' (header tiny_file)) 0 = Inr 6
     \<and> storage (parameterData m') = region tiny_file
     \<and> vsize (parameterData m') = 0"
proof -
  obtain m where m: "loadConfig xenv tiny_config = Inr m" "nLayers m = 0" "layers m = []"
    "parameterData m = \<lparr> vsize = 0, storage = [] \<rparr>"
    using tiny_model by blast
  have mo: "max_offset (erase ''__metadata__'' (header tiny_file)) 0 = Inr 6"
    by (simp add: tiny_file_def erase_def)
  have "\<forall>name\<in>set (required_names (nLayers m)).
           \<exists>s. load (erase ''__metadata__'' (header tiny_file)) name = Inr s"
    by (simp add: m(2) required_names_0 tiny_file_def erase_def load_def)
  moreover have "\<exists>mo r. max_offset (erase ''__metadata__'' (header tiny_file)) 0 = Inr mo
      \<and> reserve xenv mo (parameterData m) = Inr r"
    using mo reserve_Inr [of xenv 6 "parameterData m"] by auto
  ultimately obtain m' where m': "loadParameters xenv m tiny_file = Inr m'"
    using loadParameters_returns by blast
  have "(6::nat) \<le> length (region tiny_file)" by (simp add: tiny_file_def)
  from loadParameters_storage [OF m' m(4) mo this]
  have "storage (parameterData m') = region tiny_file" "vsize (parameterData m') = 0"
    by (simp_all add: tiny_file_def)
  with m(1) m' mo show ?thesis by blast
qed

text \<open>
  The copy itself, for every container whose stream holds at least \<open>maxOffset\<close> bytes after
  the header and a model fresh from \<^verbatim>\<open>loadConfig\<close>: the allocation holds the first
  \<open>maxOffset\<close> bytes of the tensor region, so the bytes at \<open>[start, end)\<close> of every tensor
  entry are those of the stream.
\<close>

theorem loadParameters_copies_tensor_bytes:
  assumes "loadParameters E m file = Inr m'"
    and "parameterData m = \<lparr> vsize = 0, storage = [] \<rparr>"
    and "max_offset (erase ''__metadata__'' (header file)) 0 = Inr maxOffset"
    and "maxOffset \<le> length (region file)"
  shows "storage (parameterData m') = take maxOffset (region file)
     \<and> (\<forall>name dt start fin i.
           map_of (erase ''__metadata__'' (header file)) (''model.'' @ name @ ''.weight'')
             = Some (Tensor dt start fin) \<longrightarrow> start \<le> i \<longrightarrow> i < fin
           \<longrightarrow> fin \<le> maxOffset \<and> storage (parameterData m') ! i = region file ! i)"
proof -
  have s: "storage (parameterData m') = take maxOffset (region file)"
    by (rule loadParameters_storage(1) [OF assms])
  have "fin \<le> maxOffset \<and> storage (parameterData m') ! i = region file ! i"
    if "map_of (erase ''__metadata__'' (header file)) (''model.'' @ name @ ''.weight'')
             = Some (Tensor dt start fin)" "i < fin" for name dt start fin i
  proof -
    from map_of_SomeD [OF that(1)] max_offset_ge [OF assms(3)] have "fin \<le> maxOffset" by blast
    with that(2) show ?thesis by (simp add: s)
  qed
  with s show ?thesis by blast
qed

theorem loadParameters_copies_tensor_bytes_witness:
  "\<exists>m m'. loadConfig xenv tiny_config = Inr m \<and> loadParameters xenv m tiny_file = Inr m'
     \<and> storage (parameterData m') ! 4 = 0x80 \<and> storage (parameterData m') ! 5 = 0x3F"
proof -
  obtain m where m: "loadConfig xenv tiny_config = Inr m" "nLayers m = 0" "layers m = []"
    "parameterData m = \<lparr> vsize = 0, storage = [] \<rparr>"
    using tiny_model by blast
  have mo: "max_offset (erase ''__metadata__'' (header tiny_file)) 0 = Inr 6"
    by (simp add: tiny_file_def erase_def)
  have "\<forall>name\<in>set (required_names (nLayers m)).
           \<exists>s. load (erase ''__metadata__'' (header tiny_file)) name = Inr s"
    by (simp add: m(2) required_names_0 tiny_file_def erase_def load_def)
  moreover have "\<exists>mo r. max_offset (erase ''__metadata__'' (header tiny_file)) 0 = Inr mo
      \<and> reserve xenv mo (parameterData m) = Inr r"
    using mo reserve_Inr [of xenv 6 "parameterData m"] by auto
  ultimately obtain m' where m': "loadParameters xenv m tiny_file = Inr m'"
    using loadParameters_returns by blast
  have en: "(6::nat) \<le> length (region tiny_file)" by (simp add: tiny_file_def)
  have e: "map_of (erase ''__metadata__'' (header tiny_file)) (''model.'' @ ''norm'' @ ''.weight'')
             = Some (Tensor ''BF16'' 4 6)"
    by (simp add: tiny_file_def erase_def)
  from loadParameters_copies_tensor_bytes [OF m' m(4) mo en]
  have all: "\<forall>name dt start fin i.
           map_of (erase ''__metadata__'' (header tiny_file)) (''model.'' @ name @ ''.weight'')
             = Some (Tensor dt start fin) \<longrightarrow> start \<le> i \<longrightarrow> i < fin
           \<longrightarrow> fin \<le> 6 \<and> storage (parameterData m') ! i = region tiny_file ! i"
    by (rule conjunct2)
  from all [rule_format, OF e, of 4] all [rule_format, OF e, of 5]
  have "storage (parameterData m') ! 4 = region tiny_file ! 4"
    "storage (parameterData m') ! 5 = region tiny_file ! 5"
    by simp_all
  then have "storage (parameterData m') ! 4 = 0x80" "storage (parameterData m') ! 5 = 0x3F"
    by (simp_all add: tiny_file_def)
  with m(1) m' show ?thesis by blast
qed

section \<open>The forward pipeline\<close>

lemma max_element_prefix:
  assumes swo: "strict_weak_order_on E (set xs)"
  shows "0 < n \<Longrightarrow> n \<le> length xs \<Longrightarrow>
     (let r = fold (\<lambda>i largest. if fless E (xs ! largest) (xs ! i) then i else largest) [1..<n] 0
      in r < n \<and> (\<forall>j<n. \<not> fless E (xs ! r) (xs ! j)) \<and> (\<forall>j<r. fless E (xs ! j) (xs ! r)))"
proof (induction n)
  case 0
  then show ?case by simp
next
  case (Suc n)
  from swo have irr: "\<And>a. a \<in> set xs \<Longrightarrow> \<not> fless E a a"
    and tr: "\<And>a b c. a \<in> set xs \<Longrightarrow> b \<in> set xs \<Longrightarrow> c \<in> set xs \<Longrightarrow> fless E a b \<Longrightarrow> fless E b c \<Longrightarrow> fless E a c"
    and nt: "\<And>a b c. a \<in> set xs \<Longrightarrow> b \<in> set xs \<Longrightarrow> c \<in> set xs \<Longrightarrow> fless E a b \<Longrightarrow> fless E a c \<or> fless E c b"
    unfolding strict_weak_order_on_def by blast+
  show ?case
  proof (cases "n = 0")
    case True
    have "0 < length xs" using Suc.prems(2) by (cases xs) simp_all
    then have "xs ! 0 \<in> set xs" by (rule nth_mem)
    from irr [OF this] True show ?thesis by simp
  next
    case False
    define r where "r = fold (\<lambda>i largest. if fless E (xs ! largest) (xs ! i) then i else largest) [1..<n] 0"
    have up: "[1..<Suc n] = [1..<n] @ [n]" using False by simp
    from Suc.IH False Suc.prems have IH: "r < n" "\<And>j. j < n \<Longrightarrow> \<not> fless E (xs ! r) (xs ! j)"
      "\<And>j. j < r \<Longrightarrow> fless E (xs ! j) (xs ! r)"
      by (simp_all add: r_def Let_def)
    have n: "n < length xs" using Suc.prems by simp
    have mem: "\<And>j. j \<le> n \<Longrightarrow> xs ! j \<in> set xs" using n by simp
    have res: "fold (\<lambda>i largest. if fless E (xs ! largest) (xs ! i) then i else largest) [1..<Suc n] 0
               = (if fless E (xs ! r) (xs ! n) then n else r)"
      by (simp add: up r_def)
    show ?thesis
    proof (cases "fless E (xs ! r) (xs ! n)")
      case True
      have a: "\<not> fless E (xs ! n) (xs ! j)" if "j < Suc n" for j
      proof (cases "j = n")
        case True
        then show ?thesis using irr [OF mem [of n]] by simp
      next
        case False
        then have j: "j < n" using that by simp
        show ?thesis
        proof
          assume "fless E (xs ! n) (xs ! j)"
          with True have "fless E (xs ! r) (xs ! j)"
            using tr [of "xs ! r" "xs ! n" "xs ! j"] mem [of r] mem [of n] mem [of j] IH(1) j by simp
          with IH(2) [OF j] show False by simp
        qed
      qed
      have b: "fless E (xs ! j) (xs ! n)" if "j < n" for j
        using nt [of "xs ! r" "xs ! n" "xs ! j"] True IH(2) [OF that] mem [of r] mem [of n] mem [of j] IH(1) that
        by auto
      show ?thesis unfolding res Let_def using True a b by simp
    next
      case False
      have a: "\<not> fless E (xs ! r) (xs ! j)" if "j < Suc n" for j
        using that False IH(2) [of j] by (cases "j = n") simp_all
      show ?thesis unfolding res Let_def using False a IH(1,3) by simp
    qed
  qed
qed

lemma max_element_first_argmax:
  assumes "strict_weak_order_on E (set xs)" and "xs \<noteq> []"
  shows "first_argmax E xs (max_element E xs)"
  using max_element_prefix [OF assms(1), of "length xs"] assms(2)
  by (simp add: first_argmax_def max_element_def Let_def)

lemma xless_strict_weak_order:
  assumes "NaN \<notin> A"
  shows "strict_weak_order_on xenv A"
proof -
  have 1: "\<not> xless a a" for a by (cases a) simp_all
  have 2: "xless a b \<Longrightarrow> xless b c \<Longrightarrow> xless a c" for a b c
    by (cases a; cases b; cases c) simp_all
  have 3: "xless a b \<Longrightarrow> xless a c \<or> xless c b" if "c \<noteq> NaN" for a b c
    using that by (cases a; cases b; cases c) auto
  have f: "fless xenv = xless" by (simp add: xenv_def)
  show ?thesis
    unfolding strict_weak_order_on_def f
  proof (intro conjI ballI impI)
    fix a b c assume "c \<in> A" "xless a b"
    then show "xless a c \<or> xless c b" using 3 [of c a b] assms by auto
  qed (use 1 2 in blast)+
qed

lemma predict_eq:
  assumes ok: "model_ok m" and b: "length tokens * dModel m < 2 ^ 32"
  shows "\<exists>hidden logits.
     final_hidden E m tokens = Inr hidden \<and> length hidden = length tokens * dModel m
     \<and> project E hidden (get_bf16 E m (embedTokens m)) (dModel m) (dVocab m) = Inr logits
     \<and> length logits = length tokens * dVocab m
     \<and> predict E m tokens =
         (if dVocab m \<le> length logits
          then Inr (max_element E (drop (length logits - dVocab m) logits))
          else Inl OutOfBounds)"
proof -
  from ok have d: "0 < dModel m" by (simp add: model_ok_def)
  obtain hidden where h: "final_hidden E m tokens = Inr hidden"
    "length hidden = length tokens * dModel m"
    using final_hidden_Inr [OF ok b] by blast
  obtain logits where l: "project E hidden (get_bf16 E m (embedTokens m)) (dModel m) (dVocab m) = Inr logits"
    "length logits = length hidden div dModel m * dVocab m"
    using project_Inr [OF d] by blast
  have "length logits = length tokens * dVocab m" using l(2) h(2) d by simp
  moreover have "predict E m tokens =
         (if dVocab m \<le> length logits
          then Inr (max_element E (drop (length logits - dVocab m) logits))
          else Inl OutOfBounds)"
    by (simp add: predict_def h(1) l(1))
  ultimately show ?thesis using h l(1) by blast
qed


lemma dot_row_last:
  assumes d: "0 < d" and N: "0 < N" and len: "length x = N * d" and b: "N * d < 2 ^ 32"
  shows "dot_row E x weight d (N - 1) j = dot_row E (drop ((N - 1) * d) x) weight d 0 j"
  unfolding dot_row_def
proof (intro fold_cong refl)
  fix i assume "i \<in> set [0..<d]"
  then have i: "i < d" by simp
  have lt: "(N - 1) * d + i < N * d"
    using radix_bound [of "N - 1" N i d] N i by simp
  then have 1: "u32 ((N - 1) * d + i) = (N - 1) * d + i"
    using b by (intro u32_id) simp
  have "i < N * d" using lt by simp
  then have 2: "u32 (0 * d + i) = i" using b by (simp add: u32_id)
  have "(N - 1) * d \<le> length x" using len by simp
  then have 3: "drop ((N - 1) * d) x ! i = x ! ((N - 1) * d + i)"
    by (rule nth_drop)
  show "(\<lambda>dot. fadd E dot (fmul E (x ! u32 ((N - 1) * d + i)) (bf16_to_float E (weight (u32 (j * d + i))))))
      = (\<lambda>dot. fadd E dot (fmul E (drop ((N - 1) * d) x ! u32 (0 * d + i)) (bf16_to_float E (weight (u32 (j * d + i))))))"
    by (simp only: 1 2 3)
qed

lemma project_last_row:
  assumes d: "0 < d" and N: "0 < N" and len: "length x = N * d"
    and b1: "N * d < 2 ^ 32" and b2: "N * dOut < 2 ^ 32"
    and p: "project E x weight d dOut = Inr logits"
  shows "project E (drop ((N - 1) * d) x) weight d dOut = Inr (drop (length logits - dOut) logits)"
proof -
  let ?x' = "drop ((N - 1) * d) x"
  have rows: "length x div d = N" using len d by simp
  have len': "length ?x' = d"
    using len N by (simp add: diff_mult_distrib)
  then have rows': "length ?x' div d = 1" using d by simp
  from project_Inr [OF d, of E x weight dOut] p have ll: "length logits = N * dOut"
    by (simp add: rows)
  obtain logits' where p'': "project E ?x' weight d dOut = Inr logits'"
    "length logits' = length ?x' div d * dOut"
    using project_Inr [OF d, of E ?x' weight dOut] by blast
  have p': "project E ?x' weight d dOut = Inr logits'" "length logits' = dOut"
    using p'' by (simp_all only: rows' mult_1)
  have off: "length logits - dOut = (N - 1) * dOut"
    using ll N by (simp add: diff_mult_distrib)
  have "logits' = drop (length logits - dOut) logits"
  proof (rule nth_equalityI)
    show "length logits' = length (drop (length logits - dOut) logits)"
      using p'(2) ll off N by (simp add: diff_mult_distrib)
    fix j assume "j < length logits'"
    then have j: "j < dOut" using p'(2) by simp
    have bb: "length ?x' div d * dOut < 2 ^ 32"
    proof -
      have "1 * dOut \<le> N * dOut" using N by (intro mult_le_mono1) simp
      then have "1 * dOut < 2 ^ 32" using b2 by (rule le_less_trans)
      then show ?thesis by (simp only: rows')
    qed
    have "logits' ! (0 * dOut + j) = dot_row E ?x' weight d 0 j"
      by (rule project_nth [OF d bb _ j p'(1)]) (simp only: rows' zero_less_one)
    moreover have "logits ! ((N - 1) * dOut + j) = dot_row E x weight d (N - 1) j"
      by (rule project_nth [OF d _ _ j p]) (use N b2 in \<open>simp_all add: rows\<close>)
    moreover have "drop (length logits - dOut) logits ! j = logits ! ((N - 1) * dOut + j)"
      unfolding off using ll N by (intro nth_drop) (simp add: diff_mult_distrib)
    ultimately show "logits' ! j = drop (length logits - dOut) logits ! j"
      using dot_row_last [OF d N len b1, of E weight j] by simp
  qed
  with p'(1) show ?thesis by simp
qed

text \<open>
  Within 32-bit indices \<^verbatim>\<open>predict\<close> does what it is meant to do. For every non-empty token
  sequence whose buffers have fewer than \<open>2 ^ 32\<close> entries (on a model whose divisors are
  not zero), the token \<^verbatim>\<open>predict\<close> returns is the \<^verbatim>\<open>std::max_element\<close> index of the \<open>dVocab\<close>
  logits obtained by projecting, with the embedding weights, the last position's row of
  the hidden state after the final normalization; no other row takes part. Where
  \<^verbatim>\<open>operator<\<close> orders the logits, that index is the first arg-max.
\<close>

theorem predict_argmax_last_position:
  assumes ok: "model_ok m" and ne: "tokens \<noteq> []" and fit: "buffers_fit m (length tokens)"
  shows "\<exists>hidden logits.
     final_hidden E m tokens = Inr hidden \<and> length hidden = length tokens * dModel m
     \<and> project E (drop ((length tokens - 1) * dModel m) hidden)
           (get_bf16 E m (embedTokens m)) (dModel m) (dVocab m) = Inr logits
     \<and> length logits = dVocab m
     \<and> predict E m tokens = Inr (max_element E logits)
     \<and> (0 < dVocab m \<and> strict_weak_order_on E (set logits)
          \<longrightarrow> first_argmax E logits (max_element E logits))"
proof -
  from ok have d: "0 < dModel m" by (simp add: model_ok_def)
  from fit have b1: "length tokens * dModel m < 2 ^ 32" and b2: "length tokens * dVocab m < 2 ^ 32"
    by (simp_all add: buffers_fit_def)
  have N: "0 < length tokens" using ne by simp
  from predict_eq [OF ok b1, of E] obtain hidden all_logits where
    p: "final_hidden E m tokens = Inr hidden" "length hidden = length tokens * dModel m"
      "project E hidden (get_bf16 E m (embedTokens m)) (dModel m) (dVocab m) = Inr all_logits"
      "length all_logits = length tokens * dVocab m"
      "predict E m tokens = (if dVocab m \<le> length all_logits
          then Inr (max_element E (drop (length all_logits - dVocab m) all_logits))
          else Inl OutOfBounds)"
    by blast
  define logits where "logits = drop (length all_logits - dVocab m) all_logits"
  have le: "dVocab m \<le> length all_logits" using N p(4) by (cases tokens) simp_all
  have 1: "project E (drop ((length tokens - 1) * dModel m) hidden)
           (get_bf16 E m (embedTokens m)) (dModel m) (dVocab m) = Inr logits"
    unfolding logits_def by (rule project_last_row [OF d N p(2) b1 b2 p(3)])
  have 2: "length logits = dVocab m" using le by (simp add: logits_def)
  have 3: "predict E m tokens = Inr (max_element E logits)" using p(5) le by (simp add: logits_def)
  have 4: "0 < dVocab m \<and> strict_weak_order_on E (set logits)
          \<longrightarrow> first_argmax E logits (max_element E logits)"
    using 2 by (auto intro!: max_element_first_argmax)
  show ?thesis
    by (intro exI [of _ hidden] exI [of _ logits] conjI p(1) p(2) 1 2 3 4)
qed

lemma tiny_loaded:
  "\<exists>m0 m. loadConfig xenv tiny_config = Inr m0 \<and> loadParameters xenv m0 tiny_file = Inr m
     \<and> model_ok m \<and> dVocab m = 2 \<and> dModel m = 1 \<and> normEps m = Fin 0 \<and> layers m = []
     \<and> embedTokens m = 0 \<and> finalNorm m = 4
     \<and> storage (parameterData m) = [0x80, 0x3F, 0x00, 0x40, 0x80, 0x3F]
     \<and> buffers_fit m (Suc 0)"
proof -
  obtain m0 where m0: "loadConfig xenv tiny_config = Inr m0" "nLayers m0 = 0" "layers m0 = []"
    "parameterData m0 = \<lparr> vsize = 0, storage = [] \<rparr>" "dModel m0 = 1" "dVocab m0 = 2"
    "dFFN m0 = 1" "dAttnHead m0 = 2" "dAttnKV m0 = 1" "dAttnQ m0 = 1"
    "length (ropeFreq m0) = 1" "normEps m0 = Fin 0"
    using tiny_model by blast
  let ?hdr = "erase ''__metadata__'' (header tiny_file)"
  have mo: "max_offset ?hdr 0 = Inr 6"
    by (simp add: tiny_file_def erase_def)
  have le: "load ?hdr ''embed_tokens'' = Inr 0" and ln: "load ?hdr ''norm'' = Inr 4"
    by (simp_all add: tiny_file_def erase_def load_def)
  then have "\<forall>name\<in>set (required_names (nLayers m0)). \<exists>s. load ?hdr name = Inr s"
    by (simp add: m0(2) required_names_0)
  moreover have "\<exists>mo r. max_offset (erase ''__metadata__'' (header tiny_file)) 0 = Inr mo
      \<and> reserve xenv mo (parameterData m0) = Inr r"
    using mo reserve_Inr [of xenv 6 "parameterData m0"] by auto
  ultimately obtain m where m: "loadParameters xenv m0 tiny_file = Inr m"
    using loadParameters_returns by blast
  have en: "(6::nat) \<le> length (region tiny_file)" by (simp add: tiny_file_def)
  from loadParameters_storage(1) [OF m m0(4) mo en]
  have st: "storage (parameterData m) = [0x80, 0x3F, 0x00, 0x40, 0x80, 0x3F]"
    by (simp add: tiny_file_def)
  from loadParameters_frame [OF m] m0
  have dims: "dVocab m = 2" "dModel m = 1" "normEps m = Fin 0" "dFFN m = 1" "dAttnHead m = 2"
    "dAttnKV m = 1" "dAttnQ m = 1" "length (ropeFreq m) = 1"
    by simp_all
  have ok: "model_ok m" by (simp add: model_ok_def dims u32_def)
  have fit: "buffers_fit m (Suc 0)" by (simp add: buffers_fit_def dims)
  from loadParameters_Inr [OF m] le ln m0(2,3)
  have "layers m = []" "embedTokens m = 0" "finalNorm m = 4" by auto
  with m0(1) m ok dims st fit show ?thesis by blast
qed

lemma tiny_weights:
  assumes "storage (parameterData m) = [0x80, 0x3F, 0x00, 0x40, 0x80, 0x3F]"
  shows "bf16_to_float xenv (get_bf16 xenv m 0 0) = Fin 1"
    and "bf16_to_float xenv (get_bf16 xenv m 0 (Suc 0)) = Fin 2"
    and "bf16_to_float xenv (get_bf16 xenv m 4 0) = Fin 1"
  by (simp_all add: bf16_to_float_def get_bf16_def byte_at_def assms bf16_to_float_bits_def
      union_bits_def x_of_bits_def Let_def)

lemma tiny_final_hidden:
  assumes "dModel m = 1" "normEps m = Fin 0" "layers m = []" "embedTokens m = 0" "finalNorm m = 4"
    and st: "storage (parameterData m) = [0x80, 0x3F, 0x00, 0x40, 0x80, 0x3F]"
  shows "final_hidden xenv m [Suc 0] = Inr [Fin 1]"
proof -
  have e: "embeddingLookup xenv [Suc 0] (get_bf16 xenv m 0) (Suc 0) = [Fin 2]"
    by (simp add: embeddingLookup_def Activation_def u32_def tiny_weights(2) [OF st])
  have row: "rmsNorm_row xenv [Fin 2] (get_bf16 xenv m 4) (Suc 0) (Fin 0) 0 [NaN] = [Fin 1]"
    by (simp add: rmsNorm_row_def Let_def u32_def tiny_weights(3) [OF st])
  have "rmsNorm xenv [Fin 2] (get_bf16 xenv m 4) (Suc 0) (Fin 0) = Some [Fin 1]"
    unfolding rmsNorm_def
    by (subst rmsNorm_rows.simps, subst rmsNorm_rows.simps) (simp add: Activation_def row u32_def)
  then show ?thesis
    by (simp add: final_hidden_def assms(1-5) e returned_def)
qed

lemma tiny_predict:
  assumes "dVocab m = 2" "dModel m = 1" "normEps m = Fin 0" "layers m = []" "embedTokens m = 0"
    "finalNorm m = 4"
    and st: "storage (parameterData m) = [0x80, 0x3F, 0x00, 0x40, 0x80, 0x3F]"
  shows "project xenv [Fin 1] (get_bf16 xenv m (embedTokens m)) (dModel m) (dVocab m)
           = Inr [Fin 1, Fin 2]"
    and "predict xenv m [1] = Inr 1"
proof -
  have d0: "dot_row xenv [Fin 1] (get_bf16 xenv m 0) (Suc 0) 0 0 = Fin 1"
    and d1: "dot_row xenv [Fin 1] (get_bf16 xenv m 0) (Suc 0) 0 (Suc 0) = Fin 2"
    by (simp_all add: dot_row_def u32_def tiny_weights [OF st])
  show p: "project xenv [Fin 1] (get_bf16 xenv m (embedTokens m)) (dModel m) (dVocab m)
           = Inr [Fin 1, Fin 2]"
    by (simp add: project_def assms(1,2,5) Activation_def u32_def d0 d1 upt_conv_Cons numeral_2_eq_2)
  show "predict xenv m [1] = Inr 1"
    using p by (simp add: predict_def tiny_final_hidden [OF assms(2-7)] max_element_def assms(1))
qed


theorem predict_argmax_last_position_witness:
  "\<exists>m0 m. loadConfig xenv tiny_config = Inr m0 \<and> loadParameters xenv m0 tiny_file = Inr m
     \<and> final_hidden xenv m [1] = Inr [Fin 1]
     \<and> project xenv (drop ((length [1::nat] - 1) * dModel m) [Fin 1])
          (get_bf16 xenv m (embedTokens m)) (dModel m) (dVocab m) = Inr [Fin 1, Fin 2]
     \<and> predict xenv m [1] = Inr 1 \<and> max_element xenv [Fin 1, Fin 2] = 1
     \<and> first_argmax xenv [Fin 1, Fin 2] 1"
proof -
  obtain m0 m where m: "loadConfig xenv tiny_config = Inr m0"
    "loadParameters xenv m0 tiny_file = Inr m" "model_ok m" "dVocab m = 2" "dModel m = 1"
    "normEps m = Fin 0" "layers m = []" "embedTokens m = 0" "finalNorm m = 4"
    "storage (parameterData m) = [0x80, 0x3F, 0x00, 0x40, 0x80, 0x3F]" "buffers_fit m (Suc 0)"
    using tiny_loaded by blast
  have fh: "final_hidden xenv m [1] = Inr [Fin 1]"
    using tiny_final_hidden [OF m(5-10)] by simp
  have ne: "[1::nat] \<noteq> []" by simp
  have fit: "buffers_fit m (length [1::nat])" using m(11) by simp
  from predict_argmax_last_position [OF m(3) ne fit, of xenv]
  obtain hidden logits where h: "final_hidden xenv m [1] = Inr hidden"
    and l: "project xenv (drop ((length [1::nat] - 1) * dModel m) hidden)
          (get_bf16 xenv m (embedTokens m)) (dModel m) (dVocab m) = Inr logits"
    "predict xenv m [1] = Inr (max_element xenv logits)"
    "0 < dVocab m \<and> strict_weak_order_on xenv (set logits)
       \<longrightarrow> first_argmax xenv logits (max_element xenv logits)"
    by blast
  from h fh have hid: "hidden = [Fin 1]" by simp
  have p: "project xenv [Fin 1] (get_bf16 xenv m (embedTokens m)) (dModel m) (dVocab m)
           = Inr [Fin 1, Fin 2]"
    by (rule tiny_predict(1) [OF m(4-10)])
  with l(1) have lg: "logits = [Fin 1, Fin 2]" by (simp add: hid)
  have mx: "max_element xenv [Fin 1, Fin 2] = 1" by (simp add: max_element_def)
  have "strict_weak_order_on xenv (set logits)"
    unfolding lg by (rule xless_strict_weak_order) simp
  with l(3) have fa: "first_argmax xenv [Fin 1, Fin 2] 1"
    by (simp add: m(4) lg mx)
  have pr: "predict xenv m [1] = Inr 1" using l(2) by (simp add: lg mx)
  have pj: "project xenv (drop ((length [1::nat] - 1) * dModel m) [Fin 1])
          (get_bf16 xenv m (embedTokens m)) (dModel m) (dVocab m) = Inr [Fin 1, Fin 2]"
    using l(1) by (simp only: hid lg)
  show ?thesis
    using m(1,2) fh pj pr mx fa by blast
qed

section \<open>Beyond 32-bit indices\<close>

lemma project_unwritten:
  assumes d: "0 < dIn" and p: "project E x weight dIn dOut = Inr y"
    and i: "2 ^ 32 \<le> i" "i < length y"
  shows "y ! i = indet E"
proof -
  let ?N = "length x div dIn"
  let ?idx = "\<lambda>t. case t of (j, n) \<Rightarrow> u32 (n * dOut + j)"
  let ?val = "\<lambda>t. case t of (j, n) \<Rightarrow> dot_row E x weight dIn n j"
  let ?ts = "List.product [0..<dOut] [0..<?N]"
  have y: "y = fold (\<lambda>t y. y[?idx t := ?val t]) ?ts (Activation E (?N * dOut))"
    using p d by (simp add: project_def fold_product)
  have len: "length y = ?N * dOut"
    using project_Inr [OF d, of E x weight dOut] p by simp
  have "fold (\<lambda>t y. y[?idx t := ?val t]) ?ts (Activation E (?N * dOut)) ! i
        = Activation E (?N * dOut) ! i"
  proof (rule scatter_other)
    fix t assume "t \<in> set ?ts"
    obtain j n where t: "t = (j, n)" by (cases t) auto
    have "u32 (n * dOut + j) < 2 ^ 32" by (simp add: u32_def)
    with i(1) show "?idx t \<noteq> i" by (simp add: t)
  qed
  then have "y ! i = Activation E (?N * dOut) ! i" by (simp only: y [symmetric])
  then show ?thesis using i(2) len by (simp add: Activation_def)
qed

lemma predict_unwritten_slice:
  assumes ok: "model_ok m" and ne: "tokens \<noteq> []"
    and b: "length tokens * dModel m < 2 ^ 32"
    and w: "2 ^ 32 \<le> (length tokens - 1) * dVocab m"
  shows "predict E m tokens = Inr (max_element E (Activation E (dVocab m)))"
proof -
  from predict_eq [OF ok b, of E] obtain hidden logits where
    p: "project E hidden (get_bf16 E m (embedTokens m)) (dModel m) (dVocab m) = Inr logits"
      "length logits = length tokens * dVocab m"
      "predict E m tokens = (if dVocab m \<le> length logits
          then Inr (max_element E (drop (length logits - dVocab m) logits))
          else Inl OutOfBounds)"
    by blast
  from ok have d: "0 < dModel m" by (simp add: model_ok_def)
  have N: "0 < length tokens" using ne by simp
  have le: "dVocab m \<le> length logits" using N p(2) by (cases tokens) simp_all
  have off: "length logits - dVocab m = (length tokens - 1) * dVocab m"
    using p(2) N by (simp add: diff_mult_distrib)
  have "drop (length logits - dVocab m) logits = Activation E (dVocab m)"
  proof (rule nth_equalityI)
    show "length (drop (length logits - dVocab m) logits) = length (Activation E (dVocab m))"
      using le by (simp add: Activation_def)
    fix j assume "j < length (drop (length logits - dVocab m) logits)"
    then have j: "j < dVocab m" using le by simp
    have in_range: "(length tokens - 1) * dVocab m + j < length logits"
      using j le off by simp
    have "drop (length logits - dVocab m) logits ! j = logits ! ((length tokens - 1) * dVocab m + j)"
      unfolding off using in_range by (intro nth_drop) simp
    also have "\<dots> = indet E"
      by (rule project_unwritten [OF d p(1) _ in_range]) (use w in simp)
    finally show "drop (length logits - dVocab m) logits ! j = Activation E (dVocab m) ! j"
      using j by (simp add: Activation_def)
  qed
  with p(3) le show ?thesis by simp
qed

lemma max_element_constant:
  "\<not> fless E a a \<Longrightarrow> max_element E (replicate n a) = 0"
proof -
  assume a: "\<not> fless E a a"
  have "k \<le> n \<Longrightarrow> fold (\<lambda>i largest. if fless E (replicate n a ! largest) (replicate n a ! i) then i else largest) [1..<k] 0 = 0" for k
  proof (induction k)
    case 0
    then show ?case by simp
  next
    case (Suc k)
    show ?case
    proof (cases "k = 0")
      case True
      then show ?thesis by simp
    next
      case False
      then have up: "[1..<Suc k] = [1..<k] @ [k]" by simp
      show ?thesis using Suc a False unfolding up by simp
    qed
  qed
  from this [of n] show ?thesis by (simp add: max_element_def)
qed

lemma max_element_second:
  assumes n: "2 \<le> length xs" and first: "fless E (xs ! 0) (xs ! 1)"
    and rest: "\<forall>i. 2 \<le> i \<longrightarrow> i < length xs \<longrightarrow> \<not> fless E (xs ! 1) (xs ! i)"
  shows "max_element E xs = 1"
proof -
  have "2 \<le> k \<Longrightarrow> k \<le> length xs \<Longrightarrow>
        fold (\<lambda>i largest. if fless E (xs ! largest) (xs ! i) then i else largest) [1..<k] 0 = 1" for k
  proof (induction k)
    case 0
    then show ?case by simp
  next
    case (Suc k)
    show ?case
    proof (cases "k = 1")
      case True
      then show ?thesis using first by simp
    next
      case False
      then have k: "2 \<le> k" using Suc.prems by simp
      then have up: "[1..<Suc k] = [1..<k] @ [k]" by simp
      have "\<not> fless E (xs ! 1) (xs ! k)" using rest k Suc.prems by simp
      then show ?thesis using Suc.IH [OF k] Suc.prems unfolding up by simp
    qed
  qed
  from this [of "length xs"] n show ?thesis by (simp add: max_element_def)
qed


text \<open>
  C8, where it fails. The logits buffer has \<open>tokens * dVocab\<close> entries, counted in \<^verbatim>\<open>size_t\<close>
  (line 232), but \<^verbatim>\<open>project\<close> stores entry \<open>(n, j)\<close> at the \<^verbatim>\<open>unsigned\<close> index
  \<open>n * dOut + j\<close> (line 240), which is below \<open>2 ^ 32\<close>. Once the slice of the last position
  starts at \<open>2 ^ 32\<close> or beyond, no store reaches it: the last position's logits exist (the
  projection of the last row of the hidden state), but \<^verbatim>\<open>predict\<close> returns the arg-max of
  \<open>dVocab\<close> entries of fresh storage, whatever the tokens and the weights.
\<close>

theorem predict_reads_unwritten_logits:
  assumes ok: "model_ok m" and ne: "tokens \<noteq> []"
    and b: "length tokens * dModel m < 2 ^ 32"
    and w: "2 ^ 32 \<le> (length tokens - 1) * dVocab m"
  shows "\<exists>hidden logits.
     final_hidden E m tokens = Inr hidden
     \<and> project E (drop ((length tokens - 1) * dModel m) hidden)
           (get_bf16 E m (embedTokens m)) (dModel m) (dVocab m) = Inr logits
     \<and> length logits = dVocab m
     \<and> predict E m tokens = Inr (max_element E (Activation E (dVocab m)))"
proof -
  from ok have d: "0 < dModel m" by (simp add: model_ok_def)
  have N: "0 < length tokens" using ne by simp
  obtain hidden where h: "final_hidden E m tokens = Inr hidden"
    "length hidden = length tokens * dModel m"
    using final_hidden_Inr [OF ok b] by blast
  let ?row = "drop ((length tokens - 1) * dModel m) hidden"
  have "dModel m \<le> length tokens * dModel m" using ne by (cases tokens) simp_all
  then have "length ?row = dModel m"
    using h(2) by (simp add: diff_mult_distrib)
  then have rows: "length ?row div dModel m = 1" using d by simp
  obtain logits where l: "project E ?row (get_bf16 E m (embedTokens m)) (dModel m) (dVocab m) = Inr logits"
    "length logits = length ?row div dModel m * dVocab m"
    using project_Inr [OF d, of E ?row "get_bf16 E m (embedTokens m)" "dVocab m"] by blast
  have len: "length logits = dVocab m" using l(2) by (simp only: rows mult_1)
  have p: "predict E m tokens = Inr (max_element E (Activation E (dVocab m)))"
    by (rule predict_unwritten_slice [OF ok ne b w])
  show ?thesis
    by (intro exI [of _ hidden] exI [of _ logits] conjI h(1) l(1) len p)
qed

lemma big_model:
  "\<exists>m. loadConfig xenv big_config = Inr m \<and> nLayers m = 0 \<and> layers m = []
     \<and> parameterData m = \<lparr> vsize = 0, storage = [] \<rparr> \<and> dModel m = 1 \<and> dVocab m = 2 ^ 31
     \<and> dFFN m = 1 \<and> dAttnHead m = 2 \<and> dAttnKV m = 1 \<and> dAttnQ m = 1
     \<and> length (ropeFreq m) = 1 \<and> normEps m = Fin 0"
  by (simp add: loadConfig_def returned_def big_config_def tiny_config_def ropeFreq_loop_eq)

lemma big_loaded:
  "\<exists>m0 m. loadConfig xenv big_config = Inr m0 \<and> loadParameters xenv m0 big_file = Inr m
     \<and> model_ok m \<and> dVocab m = 2 ^ 31 \<and> dModel m = 1 \<and> normEps m = Fin 0 \<and> layers m = []
     \<and> embedTokens m = 0 \<and> finalNorm m = 2 ^ 32
     \<and> storage (parameterData m) = region big_file"
proof -
  obtain m0 where m0: "loadConfig xenv big_config = Inr m0" "nLayers m0 = 0" "layers m0 = []"
    "parameterData m0 = \<lparr> vsize = 0, storage = [] \<rparr>" "dModel m0 = 1" "dVocab m0 = 2 ^ 31"
    "dFFN m0 = 1" "dAttnHead m0 = 2" "dAttnKV m0 = 1" "dAttnQ m0 = 1"
    "length (ropeFreq m0) = 1" "normEps m0 = Fin 0"
    using big_model by blast
  let ?hdr = "erase ''__metadata__'' (header big_file)"
  have mo: "max_offset ?hdr 0 = Inr (2 ^ 32 + 2)"
    by (simp add: big_file_def erase_def)
  have le: "load ?hdr ''embed_tokens'' = Inr 0" and ln: "load ?hdr ''norm'' = Inr (2 ^ 32)"
    by (simp_all add: big_file_def erase_def load_def)
  then have "\<forall>name\<in>set (required_names (nLayers m0)). \<exists>s. load ?hdr name = Inr s"
    by (simp add: m0(2) required_names_0)
  moreover have "\<exists>mo r. max_offset ?hdr 0 = Inr mo \<and> reserve xenv mo (parameterData m0) = Inr r"
    using mo reserve_Inr [of xenv "2 ^ 32 + 2" "parameterData m0"] by auto
  ultimately obtain m where m: "loadParameters xenv m0 big_file = Inr m"
    using loadParameters_returns by blast
  have len: "length (region big_file) = 2 ^ 32 + 2" by (simp add: big_file_def)
  then have en: "(2 ^ 32 + 2 :: nat) \<le> length (region big_file)" by simp
  from loadParameters_storage(1) [OF m m0(4) mo en]
  have st: "storage (parameterData m) = region big_file"
    using len by simp
  from loadParameters_frame [OF m] m0
  have dims: "dVocab m = 2 ^ 31" "dModel m = 1" "normEps m = Fin 0" "dFFN m = 1" "dAttnHead m = 2"
    "dAttnKV m = 1" "dAttnQ m = 1" "length (ropeFreq m) = 1"
    by simp_all
  have ok: "model_ok m" by (simp add: model_ok_def dims u32_def)
  from loadParameters_Inr [OF m] le ln m0(2,3)
  have "layers m = []" "embedTokens m = 0" "finalNorm m = 2 ^ 32" by auto
  with m0(1) m ok dims st show ?thesis by blast
qed

lemma big_region_nth:
  "region big_file ! 0 = 0x80" "region big_file ! 1 = 0x3F"
  "region big_file ! 2 = 0x00" "region big_file ! 3 = 0x40"
  "4 \<le> i \<Longrightarrow> i < 2 ^ 32 \<Longrightarrow> region big_file ! i = 0"
  "region big_file ! (2 ^ 32) = 0x80" "region big_file ! (2 ^ 32 + 1) = 0x3F"
  "length (region big_file) = 2 ^ 32 + 2"
proof -
  let ?pre = "[0x80, 0x3F, 0x00, 0x40] :: 8 word list"
  let ?post = "[0x80, 0x3F] :: 8 word list"
  have r: "region big_file = ?pre @ replicate (2 ^ 32 - 4) 0 @ ?post"
    by (simp add: big_file_def)
  have lp: "length ?pre = 4" by simp
  show "region big_file ! 0 = 0x80" "region big_file ! 1 = 0x3F"
    "region big_file ! 2 = 0x00" "region big_file ! 3 = 0x40"
    unfolding r by (simp_all add: nth_append)
  show "region big_file ! i = 0" if "4 \<le> i" "i < 2 ^ 32"
  proof -
    have "region big_file ! i = (replicate (2 ^ 32 - 4) 0 @ ?post) ! (i - 4)"
      unfolding r using that(1) by (subst nth_append) (simp only: lp, simp)
    also have "\<dots> = replicate (2 ^ 32 - 4) 0 ! (i - 4)"
      using that by (subst nth_append) simp
    also have "\<dots> = 0" using that by simp
    finally show ?thesis .
  qed
  have g: "(xs @ ys @ zs) ! (length xs + length ys + j) = zs ! j"
    for xs ys zs :: "8 word list" and j
    by (simp add: nth_append)
  have a: "region big_file ! (4 + (2 ^ 32 - 4) + j) = ?post ! j" for j
    unfolding r using g [of ?pre "replicate (2 ^ 32 - 4) 0" ?post j] by simp
  from a [of 0] show "region big_file ! (2 ^ 32) = 0x80" by simp
  from a [of 1] show "region big_file ! (2 ^ 32 + 1) = 0x3F" by simp
  show "length (region big_file) = 2 ^ 32 + 2" by (simp add: r)
qed


lemma big_words:
  assumes st: "storage (parameterData m) = region big_file"
  shows "get_bf16 xenv m 0 0 = 0x3F80" and "get_bf16 xenv m 0 (Suc 0) = 0x4000"
    and "2 \<le> j \<Longrightarrow> j < 2 ^ 31 \<Longrightarrow> get_bf16 xenv m 0 j = 0"
    and "get_bf16 xenv m (2 ^ 32) 0 = 0x3F80"
proof -
  note n = big_region_nth
  have g: "get_bf16 xenv m p j
           = push_bit 8 (ucast (region big_file ! (p + 2 * j + 1))) OR ucast (region big_file ! (p + 2 * j))"
    if "p + 2 * j + 1 < 2 ^ 32 + 2" for p j
    using that by (simp add: get_bf16_def byte_at_def st n(8))
  have w: "get_bf16 xenv m p j = push_bit 8 (ucast hi) OR ucast lo"
    if "a = p + 2 * j" "Suc a < 2 ^ 32 + 2" "region big_file ! a = lo" "region big_file ! Suc a = hi"
    for p j a lo hi
    using that g [of p j] by simp
  have "get_bf16 xenv m 0 0 = push_bit 8 (ucast (0x3F :: 8 word)) OR ucast (0x80 :: 8 word)"
    by (rule w [of 0]) (use n(1,2) in simp_all)
  then show "get_bf16 xenv m 0 0 = 0x3F80" by simp
  have "get_bf16 xenv m 0 (Suc 0) = push_bit 8 (ucast (0x40 :: 8 word)) OR ucast (0x00 :: 8 word)"
    by (rule w [of 2]) (use n(3,4) in \<open>simp_all add: numeral_3_eq_3\<close>)
  then show "get_bf16 xenv m 0 (Suc 0) = 0x4000" by simp
  have "get_bf16 xenv m (2 ^ 32) 0 = push_bit 8 (ucast (0x3F :: 8 word)) OR ucast (0x80 :: 8 word)"
    by (rule w [of "2 ^ 32"]) (use n(6,7) in simp_all)
  then show "get_bf16 xenv m (2 ^ 32) 0 = 0x3F80" by simp
  show "get_bf16 xenv m 0 j = 0" if j: "2 \<le> j" "j < 2 ^ 31"
  proof -
    have lo: "region big_file ! (0 + 2 * j) = 0" using j by (intro n(5)) simp_all
    have hi: "region big_file ! (0 + 2 * j + 1) = 0" using j by (intro n(5)) simp_all
    have "0 + 2 * j + 1 < (2::nat) ^ 32 + 2" using j by simp
    from g [OF this] show ?thesis by (simp only: lo hi) simp
  qed
qed

lemma bf16_values:
  "bf16_to_float xenv 0x3F80 = Fin 1" "bf16_to_float xenv 0x4000 = Fin 2"
  "bf16_to_float xenv 0 = Fin 0"
  by (simp_all add: bf16_to_float_def bf16_to_float_bits_def union_bits_def x_of_bits_def Let_def)

lemma big_weights:
  assumes st: "storage (parameterData m) = region big_file"
  shows "bf16_to_float xenv (get_bf16 xenv m 0 0) = Fin 1"
    and "bf16_to_float xenv (get_bf16 xenv m 0 (Suc 0)) = Fin 2"
    and "2 \<le> j \<Longrightarrow> j < 2 ^ 31 \<Longrightarrow> bf16_to_float xenv (get_bf16 xenv m 0 j) = Fin 0"
    and "bf16_to_float xenv (get_bf16 xenv m (2 ^ 32) 0) = Fin 1"
  by (simp_all only: big_words [OF st] bf16_values)

lemma big_final_hidden:
  assumes "dModel m = 1" "normEps m = Fin 0" "layers m = []" "embedTokens m = 0"
    "finalNorm m = 2 ^ 32"
    and st: "storage (parameterData m) = region big_file"
  shows "final_hidden xenv m [0, 0, 0] = Inr [Fin 1, Fin 1, Fin 1]"
proof -
  let ?w = "get_bf16 xenv m (2 ^ 32)"
  let ?x = "[Fin 1, Fin 1, Fin 1]"
  have u3: "[0..<3] = [0, 1, 2]" by (simp add: upt_rec)
  have e: "embeddingLookup xenv [0, 0, 0] (get_bf16 xenv m 0) (Suc 0) = ?x"
    by (simp add: embeddingLookup_def Activation_def u32_def big_weights(1) [OF st] u3)
  have row: "rmsNorm_row xenv ?x ?w (Suc 0) (Fin 0) i y = y[i := Fin 1]" if "i < 3" for i y
    using that big_weights(4) [OF st]
    by (auto simp: rmsNorm_row_def Let_def u32_def less_Suc_eq numeral_3_eq_3)
  have s: "u32 (0 + Suc 0) = 1" "u32 (1 + Suc 0) = 2" "u32 (2 + Suc 0) = 3"
    by (simp_all add: u32_def)
  have "rmsNorm_rows xenv ?x ?w (Suc 0) (Fin 0) 3 y = Some y" for y
    by (subst rmsNorm_rows.simps) simp
  then have "rmsNorm_rows xenv ?x ?w (Suc 0) (Fin 0) 2 y = Some (y[2 := Fin 1])" for y
    by (subst rmsNorm_rows.simps) (simp only: s row, simp)
  then have "rmsNorm_rows xenv ?x ?w (Suc 0) (Fin 0) 1 y = Some (y[1 := Fin 1, 2 := Fin 1])" for y
    by (subst rmsNorm_rows.simps) (simp only: s row, simp)
  then have "rmsNorm_rows xenv ?x ?w (Suc 0) (Fin 0) 0 y = Some (y[0 := Fin 1, 1 := Fin 1, 2 := Fin 1])" for y
    by (subst rmsNorm_rows.simps) (simp only: s row, simp)
  then have "rmsNorm xenv ?x ?w (Suc 0) (Fin 0) = Some ?x"
    by (simp add: rmsNorm_def Activation_def)
  then show ?thesis
    using e by (simp add: final_hidden_def assms(1-5) returned_def)
qed

lemma big_last_logits:
  assumes dims: "dVocab m = 2 ^ 31" "dModel m = 1" "embedTokens m = 0"
    and st: "storage (parameterData m) = region big_file"
  shows "\<exists>logits. project xenv [Fin 1] (get_bf16 xenv m (embedTokens m)) (dModel m) (dVocab m)
             = Inr logits
           \<and> length logits = 2 ^ 31 \<and> logits ! 0 = Fin 1 \<and> logits ! 1 = Fin 2
           \<and> max_element xenv logits = 1"
proof -
  let ?w = "get_bf16 xenv m 0"
  have d: "(0::nat) < 1" by simp
  obtain logits where p: "project xenv [Fin 1] ?w 1 (2 ^ 31) = Inr logits"
    "length logits = length [Fin 1 :: xfloat] div 1 * 2 ^ 31"
    using project_Inr [OF d, of xenv "[Fin 1]" ?w "2 ^ 31"] by blast
  then have len: "length logits = 2 ^ 31" by simp
  have bb: "length [Fin 1 :: xfloat] div 1 * 2 ^ 31 < (2::nat) ^ 32" by simp
  have nth: "logits ! j = dot_row xenv [Fin 1] ?w 1 0 j" if "j < 2 ^ 31" for j
    using project_nth [OF d bb _ that p(1), of 0] by simp
  have dr: "dot_row xenv [Fin 1] ?w 1 0 j = xadd (Fin 0) (xmul (Fin 1) (bf16_to_float xenv (?w j)))"
    if "j < 2 ^ 31" for j
  proof -
    have "j < 2 ^ 32" using that by simp
    then show ?thesis by (simp add: dot_row_def u32_id)
  qed
  have l0: "logits ! 0 = Fin 1"
    using nth [of 0] dr [of 0] by (simp add: big_weights(1) [OF st])
  have l1: "logits ! 1 = Fin 2"
    using nth [of 1] dr [of 1] by (simp add: big_weights(2) [OF st])
  have lj: "logits ! j = Fin 0" if "2 \<le> j" "j < 2 ^ 31" for j
    using nth [OF that(2)] dr [OF that(2)] by (simp add: big_weights(3) [OF st that])
  have "max_element xenv logits = 1"
  proof (rule max_element_second)
    show "2 \<le> length logits" by (simp add: len)
    show "fless xenv (logits ! 0) (logits ! 1)" using l0 l1 by simp
    show "\<forall>i. 2 \<le> i \<longrightarrow> i < length logits \<longrightarrow> \<not> fless xenv (logits ! 1) (logits ! i)"
      using l1 lj len by simp
  qed
  with p(1) len l0 l1 show ?thesis by (simp add: dims)
qed

theorem predict_reads_unwritten_logits_witness:
  "\<exists>m0 m. loadConfig xenv big_config = Inr m0 \<and> loadParameters xenv m0 big_file = Inr m
     \<and> final_hidden xenv m [0, 0, 0] = Inr [Fin 1, Fin 1, Fin 1]
     \<and> (\<exists>logits. project xenv [Fin 1] (get_bf16 xenv m (embedTokens m)) (dModel m) (dVocab m)
                    = Inr logits \<and> max_element xenv logits = 1)
     \<and> predict xenv m [0, 0, 0] = Inr 0"
proof -
  obtain m0 m where m: "loadConfig xenv big_config = Inr m0"
    "loadParameters xenv m0 big_file = Inr m" "model_ok m" "dVocab m = 2 ^ 31" "dModel m = 1"
    "normEps m = Fin 0" "layers m = []" "embedTokens m = 0" "finalNorm m = 2 ^ 32"
    "storage (parameterData m) = region big_file"
    using big_loaded by blast
  have fh: "final_hidden xenv m [0, 0, 0] = Inr [Fin 1, Fin 1, Fin 1]"
    by (rule big_final_hidden [OF m(5-10)])
  have lg: "\<exists>logits. project xenv [Fin 1] (get_bf16 xenv m (embedTokens m)) (dModel m) (dVocab m)
                    = Inr logits \<and> max_element xenv logits = 1"
    using big_last_logits [OF m(4,5,8,10)] by blast
  have ne: "[0, 0, 0 :: nat] \<noteq> []" by simp
  have b: "length [0, 0, 0 :: nat] * dModel m < 2 ^ 32" by (simp add: m(5))
  have w: "2 ^ 32 \<le> (length [0, 0, 0 :: nat] - 1) * dVocab m" by (simp add: m(4))
  from predict_reads_unwritten_logits [OF m(3) ne b w, of xenv]
  have "predict xenv m [0, 0, 0] = Inr (max_element xenv (Activation xenv (dVocab m)))"
    by blast
  also have "max_element xenv (Activation xenv (dVocab m)) = 0"
    unfolding Activation_def by (rule max_element_constant) simp
  finally have "predict xenv m [0, 0, 0] = Inr 0" .
  with m(1,2) fh lg show ?thesis by blast
qed

end
